theory Spec2Isabelle
  imports Complex_Main
begin

section \<open>Numbers, matrices and networks\<close>

text \<open>
  The program computes with numpy arrays of complex doubles.  A finite entry is modelled by
  the exact complex number it stands for (rounding is outside this model); the non-finite
  entries (\<open>nan\<close>, \<open>inf\<close>) are one absorbing element \<open>None\<close>: numpy raises no exception on
  a division by zero, it stores a non-finite value, and every later sum, product or square
  root of a non-finite value is non-finite again.  A quotient with a non-finite divisor is
  taken to be non-finite as well; the results below that speak of finite values never divide
  by a non-finite one.
\<close>

type_synonym cval = "complex option"

fun fadd :: "cval \<Rightarrow> cval \<Rightarrow> cval" where
  "fadd (Some a) (Some b) = Some (a + b)"
| "fadd _ _ = None"

fun fsub :: "cval \<Rightarrow> cval \<Rightarrow> cval" where
  "fsub (Some a) (Some b) = Some (a - b)"
| "fsub _ _ = None"

fun fmul :: "cval \<Rightarrow> cval \<Rightarrow> cval" where
  "fmul (Some a) (Some b) = Some (a * b)"
| "fmul _ _ = None"

fun fdiv :: "cval \<Rightarrow> cval \<Rightarrow> cval" where
  "fdiv (Some a) (Some b) = (if b = 0 then None else Some (a / b))"
| "fdiv _ _ = None"

fun fsqrt :: "cval \<Rightarrow> cval" where
  "fsqrt (Some a) = Some (csqrt a)"
| "fsqrt None = None"

text \<open>\<open>np.imag(x) >= 0\<close>: a comparison with \<open>nan\<close> is false.\<close>

fun imag_ge0 :: "cval \<Rightarrow> bool" where
  "imag_ge0 (Some a) = (0 \<le> Im a)"
| "imag_ge0 None = False"

text \<open>A matrix is the list of its rows; an array of shape \<open>(n_freq, n, n)\<close> a list of matrices.\<close>

type_synonym cmat = "cval list list"

definition square :: "nat \<Rightarrow> cmat \<Rightarrow> bool" where
  "square n m = (length m = n \<and> list_all (\<lambda>r. length r = n) m)"

text \<open>
  \<open>skrf.Network\<close> as the program uses it: the frequency grid \<open>f\<close> (Hz), the scattering
  array \<open>s\<close> and the reference impedance \<open>z0\<close>.
\<close>

record network =
  net_f :: "real list"
  net_s :: "cmat list"
  net_z0 :: complex

section \<open>enforce_reciprocal_symmetric\<close>

text \<open>\<open>s[i] = (s[i] + s[i].T) / 2\<close>, entry by entry.\<close>

definition reciprocal_part :: "cmat \<Rightarrow> cmat" where
  "reciprocal_part m =
     map (\<lambda>i. map (\<lambda>j. fdiv (fadd (m ! i ! j) (m ! j ! i)) (Some 2)) [0..<length m]) [0..<length m]"

definition np_diag :: "cmat \<Rightarrow> cval list" where
  "np_diag m = map (\<lambda>i. m ! i ! i) [0..<length m]"

text \<open>\<open>np.mean\<close>: the sum over the number of entries (\<open>nan\<close> on an empty array).\<close>

definition np_mean :: "cval list \<Rightarrow> cval" where
  "np_mean xs = fdiv (foldl fadd (Some 0) xs) (Some (of_nat (length xs)))"

definition fill_diagonal :: "cmat \<Rightarrow> cval \<Rightarrow> cmat" where
  "fill_diagonal m v =
     map (\<lambda>i. map (\<lambda>j. if i = j then v else m ! i ! j) [0..<length m]) [0..<length m]"

definition average_diagonal :: "cmat \<Rightarrow> cmat" where
  "average_diagonal m = fill_diagonal m (np_mean (np_diag m))"

definition enforce_reciprocal_symmetric :: "network \<Rightarrow> network" where
  "enforce_reciprocal_symmetric N =
     \<lparr> net_f = net_f N,
       net_s = map average_diagonal (map reciprocal_part (net_s N)),
       net_z0 = net_z0 N \<rparr>"

text \<open>\<open>S = S^T\<close> with one shared diagonal value, as a predicate on a matrix.\<close>

definition mat_transpose :: "cmat \<Rightarrow> cmat" where
  "mat_transpose m = map (\<lambda>i. map (\<lambda>j. m ! j ! i) [0..<length m]) [0..<length m]"

definition shared_diagonal :: "cmat \<Rightarrow> bool" where
  "shared_diagonal m =
     list_all (\<lambda>i. list_all (\<lambda>j. m ! i ! i = m ! j ! j) [0..<length m]) [0..<length m]"

definition reciprocal_symmetric :: "network \<Rightarrow> bool" where
  "reciprocal_symmetric N = list_all (\<lambda>m. mat_transpose m = m \<and> shared_diagonal m) (net_s N)"

text \<open>A two-port matrix all of whose entries are finite.\<close>

definition finite_two_port :: "cmat \<Rightarrow> bool" where
  "finite_two_port m = (square 2 m \<and> list_all (list_all (\<lambda>x. x \<noteq> None)) m)"

section \<open>Errors\<close>

text \<open>
  Every exception of the program is a value.  \<open>SingularMatrixError\<close>, \<open>InputError\<close> and
  \<open>DegenerateModelError\<close> are the names of the specification (the first two raised by the
  network library, with the index of the frequency point); \<open>ValueError\<close>, \<open>TypeError\<close> and
  \<open>FileNotFoundError\<close> are Python's.  No statement of the program constructs
  \<open>DegenerateModelError\<close>.
\<close>

datatype error =
    SingularMatrixError nat
  | InputError
  | DegenerateModelError nat
  | ValueError
  | TypeError
  | FileNotFoundError

definition bindE :: "error + 'a \<Rightarrow> ('a \<Rightarrow> error + 'b) \<Rightarrow> error + 'b" where
  "bindE m k = (case m of Inl e \<Rightarrow> Inl e | Inr x \<Rightarrow> k x)"

text \<open>Run a fallible function over the frequency points, in order; the first failure wins.\<close>

fun mapE :: "('a \<Rightarrow> error + 'b) \<Rightarrow> 'a list \<Rightarrow> error + 'b list" where
  "mapE g [] = Inr []"
| "mapE g (x # xs) = bindE (g x) (\<lambda>y. bindE (mapE g xs) (\<lambda>ys. Inr (y # ys)))"

section \<open>The network library\<close>

text \<open>
  The operations of \<open>skrf\<close> that the program calls (conversion between scattering and
  impedance parameters, the \<open>inv\<close> property, the cascade operator \<open>**\<close>, the \<open>Network\<close>
  constructor from \<open>z\<close>) are not part of the repository.  They are modelled from the
  specification's NetworkAlgebra, for two-ports with one scalar reference impedance; they fail
  with \<open>SingularMatrixError\<close> (and the frequency index) where the required inverse does not
  exist, and non-finite entries pass through the arithmetic.
\<close>

text \<open>
  Modelled from the spec: \<open>scatteringToImpedance\<close>, the bilinear transform
  \<open>Z = z0 (I + S) (I - S)^-1\<close> at one frequency point, which \<open>skrf\<close> provides.
\<close>

definition s2z_point :: "complex \<Rightarrow> nat \<times> cmat \<Rightarrow> error + cmat" where
  "s2z_point z0 p =
     (case p of (i, m) \<Rightarrow>
        if \<not> square 2 m then Inl InputError
        else
          let s11 = m ! 0 ! 0; s12 = m ! 0 ! 1; s21 = m ! 1 ! 0; s22 = m ! 1 ! 1;
              d = fsub (fmul (fsub (Some 1) s11) (fsub (Some 1) s22)) (fmul s12 s21)
          in if d = Some 0 then Inl (SingularMatrixError i)
             else Inr
               [[fmul (Some z0) (fdiv (fadd (fmul (fadd (Some 1) s11) (fsub (Some 1) s22)) (fmul s12 s21)) d),
                 fmul (Some z0) (fdiv (fmul (Some 2) s12) d)],
                [fmul (Some z0) (fdiv (fmul (Some 2) s21) d),
                 fmul (Some z0) (fdiv (fadd (fmul (fsub (Some 1) s11) (fadd (Some 1) s22)) (fmul s12 s21)) d)]])"

text \<open>
  Modelled from the spec: the conversion to the scattering representation at reference
  impedance \<open>z0\<close>, \<open>S = (Z - z0 I) (Z + z0 I)^-1\<close> at one frequency point, which \<open>skrf\<close>
  provides.
\<close>

definition z2s_point :: "complex \<Rightarrow> nat \<times> cmat \<Rightarrow> error + cmat" where
  "z2s_point z0 p =
     (case p of (i, m) \<Rightarrow>
        if \<not> square 2 m then Inl InputError
        else
          let z11 = m ! 0 ! 0; z12 = m ! 0 ! 1; z21 = m ! 1 ! 0; z22 = m ! 1 ! 1; r = Some z0;
              d = fsub (fmul (fadd z11 r) (fadd z22 r)) (fmul z12 z21)
          in if d = Some 0 then Inl (SingularMatrixError i)
             else Inr
               [[fdiv (fsub (fmul (fsub z11 r) (fadd z22 r)) (fmul z12 z21)) d,
                 fdiv (fmul (fmul (Some 2) r) z12) d],
                [fdiv (fmul (fmul (Some 2) r) z21) d,
                 fdiv (fsub (fmul (fadd z11 r) (fsub z22 r)) (fmul z12 z21)) d]])"

text \<open>
  Modelled from the spec: the property \<open>net.z\<close> of \<open>skrf\<close>, the impedance representation
  derived from the scattering matrices and the reference impedance.
\<close>

definition network_z :: "network \<Rightarrow> error + cmat list" where
  "network_z N = mapE (s2z_point (net_z0 N)) (enumerate 0 (net_s N))"

text \<open>
  Modelled from the spec: the constructor \<open>rf.Network(frequency=f, z=z, z0=Z0)\<close> of \<open>skrf\<close>,
  which stores the scattering matrices of the given impedance matrices.
\<close>

definition network_from_z :: "real list \<Rightarrow> cmat list \<Rightarrow> complex \<Rightarrow> error + network" where
  "network_from_z freqs z Z0 =
     bindE (mapE (z2s_point Z0) (enumerate 0 z))
       (\<lambda>sm. Inr \<lparr> net_f = freqs, net_s = sm, net_z0 = Z0 \<rparr>)"

text \<open>
  Modelled from the spec: \<open>invertMatrix\<close>, the property \<open>net.inv\<close> of \<open>skrf\<close>, as the matrix
  inverse of the scattering matrix at each frequency.
\<close>

definition inv_point :: "nat \<times> cmat \<Rightarrow> error + cmat" where
  "inv_point p =
     (case p of (i, m) \<Rightarrow>
        if \<not> square 2 m then Inl InputError
        else
          let s11 = m ! 0 ! 0; s12 = m ! 0 ! 1; s21 = m ! 1 ! 0; s22 = m ! 1 ! 1;
              d = fsub (fmul s11 s22) (fmul s12 s21)
          in if d = Some 0 then Inl (SingularMatrixError i)
             else Inr
               [[fdiv s22 d, fdiv (fsub (Some 0) s12) d],
                [fdiv (fsub (Some 0) s21) d, fdiv s11 d]])"

text \<open>Modelled from the spec: \<open>invertMatrix\<close> over the frequency points of a network.\<close>

definition network_inv :: "network \<Rightarrow> error + network" where
  "network_inv N =
     bindE (mapE inv_point (enumerate 0 (net_s N)))
       (\<lambda>sm. Inr \<lparr> net_f = net_f N, net_s = sm, net_z0 = net_z0 N \<rparr>)"

text \<open>
  Modelled from the spec: \<open>cascade\<close>, the operator \<open>A ** B\<close> of \<open>skrf\<close>: port 2 of \<open>A\<close>
  connected to port 1 of \<open>B\<close> by the two-port scattering cascading formula, with the multiple
  reflections between the two networks; the frequency grids must match.
\<close>

definition cascade_point :: "nat \<times> cmat \<times> cmat \<Rightarrow> error + cmat" where
  "cascade_point p =
     (case p of (i, a, b) \<Rightarrow>
        if \<not> square 2 a \<or> \<not> square 2 b then Inl InputError
        else
          let a11 = a ! 0 ! 0; a12 = a ! 0 ! 1; a21 = a ! 1 ! 0; a22 = a ! 1 ! 1;
              b11 = b ! 0 ! 0; b12 = b ! 0 ! 1; b21 = b ! 1 ! 0; b22 = b ! 1 ! 1;
              d = fsub (Some 1) (fmul a22 b11)
          in if d = Some 0 then Inl (SingularMatrixError i)
             else Inr
               [[fadd a11 (fdiv (fmul (fmul a12 b11) a21) d), fdiv (fmul a12 b12) d],
                [fdiv (fmul a21 b21) d, fadd b22 (fdiv (fmul (fmul b21 a22) b12) d)]])"

text \<open>Modelled from the spec: \<open>cascade\<close> over the frequency points of two networks.\<close>

definition cascade :: "network \<Rightarrow> network \<Rightarrow> error + network" where
  "cascade A B =
     (if net_f A \<noteq> net_f B \<or> length (net_s A) \<noteq> length (net_s B) then Inl InputError
      else bindE (mapE cascade_point (enumerate 0 (zip (net_s A) (net_s B))))
             (\<lambda>sm. Inr \<lparr> net_f = net_f A, net_s = sm, net_z0 = net_z0 A \<rparr>))"

section \<open>extract_pad\<close>

text \<open>
  The body of \<open>extract_pad\<close> is written on whole arrays; every operation in it is elementwise,
  so it is one function of \<open>Z11\<close> and \<open>Z21\<close> at a frequency point, mapped over the points.
  No statement of it raises: a zero divisor gives a non-finite \<open>k\<close>.
\<close>

definition extract_point :: "cval \<Rightarrow> cval \<Rightarrow> cval \<times> cval \<times> cval" where
  "extract_point Z11 Z21 =
     (let k = fdiv (fsub (Some 0) (fmul Z21 Z21))
                   (fmul (Some (- 1)) (fadd (fmul (fmul (Some 2) Z21) Z11) (fmul Z21 Z21)));
          a = Some 1;
          b = fmul (Some (- 2)) (fadd Z11 (fmul Z21 k));
          c = fsub (fmul Z11 Z11) (fmul Z21 Z21);
          disc = fsub (fmul b b) (fmul (fmul (Some 4) a) c);
          x1 = fdiv (fadd (fmul (Some (- 1)) b) (fsqrt disc)) (fmul (Some 2) a);
          x2 = fdiv (fsub (fmul (Some (- 1)) b) (fsqrt disc)) (fmul (Some 2) a);
          Z1 = (if imag_ge0 x1 then x1 else x2);
          Z2 = fsub (fadd Z11 Z21) Z1;
          Z3 = fmul k Z1
      in (Z1, Z2, Z3))"

definition extract_pad ::
  "network \<Rightarrow> error + (real list \<times> cval list \<times> cval list \<times> cval list)" where
  "extract_pad net =
     bindE (network_z net)
       (\<lambda>Z. let Z11 = map (\<lambda>m. m ! 0 ! 0) Z;
                Z21 = map (\<lambda>m. m ! 1 ! 0) Z;
                pts = map2 extract_point Z11 Z21
            in Inr (net_f net, map fst pts, map (fst \<circ> snd) pts, map (snd \<circ> snd) pts))"

text \<open>
  The intermediate values of \<open>extract_pad\<close> at a frequency point where \<open>Z11\<close> and \<open>Z21\<close>
  are finite and the divisor of \<open>k\<close> is not zero, as complex numbers; lemma
  \<open>extract_point_finite\<close> below shows that \<open>extract_point\<close> computes them.
\<close>

definition pad_den :: "complex \<Rightarrow> complex \<Rightarrow> complex" where
  "pad_den Z11 Z21 = - 1 * (2 * Z21 * Z11 + Z21 * Z21)"

definition pad_k :: "complex \<Rightarrow> complex \<Rightarrow> complex" where
  "pad_k Z11 Z21 = (0 - Z21 * Z21) / pad_den Z11 Z21"

definition pad_b :: "complex \<Rightarrow> complex \<Rightarrow> complex" where
  "pad_b Z11 Z21 = - 2 * (Z11 + Z21 * pad_k Z11 Z21)"

definition pad_c :: "complex \<Rightarrow> complex \<Rightarrow> complex" where
  "pad_c Z11 Z21 = Z11 * Z11 - Z21 * Z21"

definition pad_disc :: "complex \<Rightarrow> complex \<Rightarrow> complex" where
  "pad_disc Z11 Z21 = pad_b Z11 Z21 * pad_b Z11 Z21 - 4 * 1 * pad_c Z11 Z21"

definition pad_x1 :: "complex \<Rightarrow> complex \<Rightarrow> complex" where
  "pad_x1 Z11 Z21 = (- 1 * pad_b Z11 Z21 + csqrt (pad_disc Z11 Z21)) / (2 * 1)"

definition pad_x2 :: "complex \<Rightarrow> complex \<Rightarrow> complex" where
  "pad_x2 Z11 Z21 = (- 1 * pad_b Z11 Z21 - csqrt (pad_disc Z11 Z21)) / (2 * 1)"

definition pad_Z1 :: "complex \<Rightarrow> complex \<Rightarrow> complex" where
  "pad_Z1 Z11 Z21 = (if 0 \<le> Im (pad_x1 Z11 Z21) then pad_x1 Z11 Z21 else pad_x2 Z11 Z21)"

section \<open>tee_network\<close>

text \<open>
  numpy's broadcasting of one-dimensional arrays: equal lengths combine pointwise, an array
  of length one is repeated, any other pair of lengths is a \<open>ValueError\<close>.
\<close>

definition np_add :: "cval list \<Rightarrow> cval list \<Rightarrow> error + cval list" where
  "np_add xs ys =
     (if length xs = length ys then Inr (map2 fadd xs ys)
      else if length xs = 1 then Inr (map (fadd (hd xs)) ys)
      else if length ys = 1 then Inr (map (\<lambda>x. fadd x (hd ys)) xs)
      else Inl ValueError)"

text \<open>The right-hand side of \<open>z[:,i,j] = v\<close>, broadcast to the \<open>n\<close> frequency points.\<close>

definition np_column :: "nat \<Rightarrow> cval list \<Rightarrow> error + cval list" where
  "np_column n v =
     (if length v = n then Inr v
      else if length v = 1 then Inr (replicate n (hd v))
      else Inl ValueError)"

definition tee_z :: "nat \<Rightarrow> cval list \<Rightarrow> cval list \<Rightarrow> cval list \<Rightarrow> error + cmat list" where
  "tee_z n Z1 Z2 Z3 =
     bindE (np_add Z1 Z2) (\<lambda>v00. bindE (np_column n v00) (\<lambda>c00.
     bindE (np_column n Z2) (\<lambda>c01.
     bindE (np_column n Z2) (\<lambda>c10.
     bindE (np_add Z2 Z3) (\<lambda>v11. bindE (np_column n v11) (\<lambda>c11.
       Inr (map (\<lambda>i. [[c00 ! i, c01 ! i], [c10 ! i, c11 ! i]]) [0..<n])))))))"

definition tee_network ::
  "real list \<Rightarrow> cval list \<Rightarrow> cval list \<Rightarrow> cval list \<Rightarrow> complex \<Rightarrow> error + network" where
  "tee_network freqs_hz Z1 Z2 Z3 Z0 =
     bindE (tee_z (length freqs_hz) Z1 Z2 Z3) (\<lambda>z. network_from_z freqs_hz z Z0)"

text \<open>A two-port with ports 1 and 2 exchanged.\<close>

definition swap_ports_mat :: "cmat \<Rightarrow> cmat" where
  "swap_ports_mat m = [[m ! 1 ! 1, m ! 1 ! 0], [m ! 0 ! 1, m ! 0 ! 0]]"

definition swap_ports :: "network \<Rightarrow> network" where
  "swap_ports N = N \<lparr> net_s := map swap_ports_mat (net_s N) \<rparr>"

section \<open>get_pads and the command line\<close>

text \<open>
  The state the program runs in: the readable touchstone files (a file is the network it
  holds; the text format is the library's), the module globals \<open>year\<close> and \<open>length\<close>, and
  the files written so far, each with the name given to \<open>write_touchstone\<close>.
\<close>

record env =
  env_files :: "string \<Rightarrow> network option"
  env_year :: int
  env_length :: int
  env_written :: "(string \<times> network) list"

text \<open>
  Modelled from the spec: \<open>rf.Network(file)\<close> and \<open>write_touchstone\<close> of \<open>skrf\<close>, the
  external reader and writer of network files.
\<close>

definition load_network :: "env \<Rightarrow> string \<Rightarrow> error + network" where
  "load_network e file = (case env_files e file of None \<Rightarrow> Inl FileNotFoundError | Some N \<Rightarrow> Inr N)"

definition write_touchstone :: "env \<Rightarrow> network \<Rightarrow> string \<Rightarrow> env" where
  "write_touchstone e N name = e \<lparr> env_written := env_written e @ [(name, N)] \<rparr>"

text \<open>\<open>str\<close> of a Python integer, as the f-strings format it.\<close>

definition digit_char :: "nat \<Rightarrow> char" where
  "digit_char d = ''0123456789'' ! d"

function str_nat :: "nat \<Rightarrow> string" where
  "str_nat n = (if n < 10 then [digit_char n] else str_nat (n div 10) @ [digit_char (n mod 10)])"
  by pat_completeness auto
termination
  by (relation "measure id") auto

declare str_nat.simps [simp del]

definition str_int :: "int \<Rightarrow> string" where
  "str_int i = (if i < 0 then ''-'' @ str_nat (nat (- i)) else str_nat (nat i))"

text \<open>
  \<open>L_line ** L2_line.inv ** L_line\<close>: Python's \<open>**\<close> groups to the right, and the operands
  are evaluated from left to right before either cascade.
\<close>

definition deembed :: "network \<Rightarrow> network \<Rightarrow> error + network" where
  "deembed L_line L2_line =
     bindE (network_inv L2_line) (\<lambda>L2_inv.
     bindE (cascade L2_inv L_line) (\<lambda>inner.
       cascade L_line inner))"

text \<open>
  The de-embedding step in the specification's words:
  \<open>cascade(cascade(networkShort, invertMatrix(networkLong)), networkShort)\<close>.
\<close>

definition spec_composite :: "network \<Rightarrow> network \<Rightarrow> error + network" where
  "spec_composite networkShort networkLong =
     bindE (network_inv networkLong) (\<lambda>long_inv.
     bindE (cascade networkShort long_inv) (\<lambda>first.
       cascade first networkShort))"

definition pad_name :: "string \<Rightarrow> env \<Rightarrow> string" where
  "pad_name side e = side @ ''_pad_'' @ str_int (env_year e) @ ''_'' @ str_int (env_length e)"

definition get_pads :: "env \<Rightarrow> string \<Rightarrow> string \<Rightarrow> error + ((network \<times> network) \<times> env)" where
  "get_pads e file1 file2 =
     bindE (load_network e file1) (\<lambda>L_line.
     bindE (load_network e file2) (\<lambda>L2_line.
     bindE (deembed L_line L2_line) (\<lambda>pads.
     bindE (extract_pad (enforce_reciprocal_symmetric pads)) (\<lambda>(f, Z1, Z2, Z3).
     bindE (tee_network f Z1 Z2 Z3 50) (\<lambda>left_pad.
     bindE (tee_network f Z3 Z2 Z1 50) (\<lambda>right_pad.
       let e1 = write_touchstone e left_pad (pad_name ''left'' e);
           e2 = write_touchstone e1 right_pad (pad_name ''right'' e1)
       in Inr ((left_pad, right_pad), e2)))))))"

text \<open>
  A call of \<open>get_pads\<close> with positional arguments: the function is declared with the two
  parameters \<open>file1\<close> and \<open>file2\<close>, and Python raises \<open>TypeError\<close> for any other number of
  arguments before the body runs.
\<close>

datatype pyval = PyStr string | PyInt int

fun call_get_pads :: "env \<Rightarrow> pyval list \<Rightarrow> error + ((network \<times> network) \<times> env)" where
  "call_get_pads e [PyStr file1, PyStr file2] = get_pads e file1 file2"
| "call_get_pads e _ = Inl TypeError"

definition run_pad_extraction ::
  "env \<Rightarrow> string \<Rightarrow> string \<Rightarrow> int \<Rightarrow> int \<Rightarrow> error + ((network \<times> network) \<times> env)" where
  "run_pad_extraction e file1 file2 year len =
     call_get_pads e [PyStr file1, PyStr file2, PyInt year, PyInt len]"

text \<open>
  The \<open>__main__\<close> block after the arguments are parsed: \<open>year\<close> and \<open>length\<close> are assigned
  at module level, so they replace the globals; the two results of \<open>run_pad_extraction\<close> are
  printed, one per line.  The output is the list of the objects printed.  (The two calls of
  \<open>get_pads\<close> on the sample files that the module makes when it is loaded come before this
  block and are not part of it.)
\<close>

definition main_block ::
  "env \<Rightarrow> string \<Rightarrow> string \<Rightarrow> int \<Rightarrow> int \<Rightarrow> error + (network list \<times> env)" where
  "main_block e file1 file2 year len =
     (let e0 = e \<lparr> env_year := year, env_length := len \<rparr>
      in bindE (run_pad_extraction e0 file1 file2 year len)
           (\<lambda>((left_name, right_name), e1). Inr ([left_name, right_name], e1)))"

text \<open>The relative tolerance of the specification's round-trip property.\<close>

definition spec_rel_close :: "complex \<Rightarrow> complex \<Rightarrow> bool" where
  "spec_rel_close x y = (cmod (x - y) \<le> 1 / 10 ^ 9 * cmod y)"

section \<open>Properties of the symmetrizer\<close>

lemma fadd_commute: "fadd a b = fadd b a"
  by (cases a; cases b) simp_all

lemma fdiv_double: "fdiv (fadd a a) (Some 2) = a"
  by (cases a) simp_all

lemma length_reciprocal_part [simp]: "length (reciprocal_part m) = length m"
  by (simp add: reciprocal_part_def)

lemma length_fill_diagonal [simp]: "length (fill_diagonal m v) = length m"
  by (simp add: fill_diagonal_def)

lemma length_average_diagonal [simp]: "length (average_diagonal m) = length m"
  by (simp add: average_diagonal_def)

lemma reciprocal_part_nth:
  "i < length m \<Longrightarrow> j < length m \<Longrightarrow>
   reciprocal_part m ! i ! j = fdiv (fadd (m ! i ! j) (m ! j ! i)) (Some 2)"
  by (simp add: reciprocal_part_def)

lemma fill_diagonal_nth:
  "i < length m \<Longrightarrow> j < length m \<Longrightarrow>
   fill_diagonal m v ! i ! j = (if i = j then v else m ! i ! j)"
  by (simp add: fill_diagonal_def)

lemma square_fill_diagonal: "square (length m) (fill_diagonal m v)"
  by (simp add: square_def fill_diagonal_def list_all_iff)

lemma square_reciprocal_part: "square (length m) (reciprocal_part m)"
  by (simp add: square_def reciprocal_part_def list_all_iff)

lemma square_nth_eq:
  assumes "square n a" and "square n b"
    and "\<And>i j. i < n \<Longrightarrow> j < n \<Longrightarrow> a ! i ! j = b ! i ! j"
  shows "a = b"
proof (rule nth_equalityI)
  show "length a = length b"
    using assms(1,2) by (simp add: square_def)
next
  fix i assume i: "i < length a"
  then have in_n: "i < n" using assms(1) by (simp add: square_def)
  have la: "length (a ! i) = n"
    using assms(1) i by (simp add: square_def list_all_length)
  have lb: "length (b ! i) = n"
    using assms(2) in_n by (simp add: square_def list_all_length)
  show "a ! i = b ! i"
    by (rule nth_equalityI) (use la lb in_n assms(3) in auto)
qed

lemma symmetrized_transpose:
  "mat_transpose (average_diagonal (reciprocal_part m)) = average_diagonal (reciprocal_part m)"
proof (rule square_nth_eq [where n = "length m"])
  show "square (length m) (mat_transpose (average_diagonal (reciprocal_part m)))"
    by (simp add: square_def mat_transpose_def list_all_iff)
  show "square (length m) (average_diagonal (reciprocal_part m))"
    using square_fill_diagonal [of "reciprocal_part m"] by (simp add: average_diagonal_def)
  fix i j assume "i < length m" "j < length m"
  then show "mat_transpose (average_diagonal (reciprocal_part m)) ! i ! j
      = average_diagonal (reciprocal_part m) ! i ! j"
    by (simp add: mat_transpose_def average_diagonal_def fill_diagonal_nth
        reciprocal_part_nth fadd_commute)
qed

lemma shared_diagonal_iff:
  "shared_diagonal m \<longleftrightarrow> (\<forall>i<length m. \<forall>j<length m. m ! i ! i = m ! j ! j)"
  unfolding shared_diagonal_def list_all_iff by (simp add: Ball_def)

lemma symmetrized_shared_diagonal:
  "shared_diagonal (average_diagonal m)"
  by (simp add: shared_diagonal_iff average_diagonal_def fill_diagonal_nth)

text \<open>
  Claim C4.  The network returned by \<open>enforce_reciprocal_symmetric\<close> has the frequency grid
  and the reference impedance of its argument, and at every frequency point its scattering
  matrix equals its own transpose and has one shared value on the diagonal.
\<close>

theorem enforce_reciprocal_symmetric_invariant:
  "net_f (enforce_reciprocal_symmetric N) = net_f N \<and>
   net_z0 (enforce_reciprocal_symmetric N) = net_z0 N \<and>
   length (net_s (enforce_reciprocal_symmetric N)) = length (net_s N) \<and>
   (\<forall>m \<in> set (net_s (enforce_reciprocal_symmetric N)).
      mat_transpose m = m \<and> shared_diagonal m)"
  by (auto simp add: enforce_reciprocal_symmetric_def symmetrized_transpose
      symmetrized_shared_diagonal)

theorem enforce_reciprocal_symmetric_invariant_witness:
  "[[Some 2, Some 3], [Some 3, Some 2]] \<in> set (net_s (enforce_reciprocal_symmetric
       \<lparr> net_f = [1], net_s = [[[Some 1, Some 2], [Some 4, Some 3]]], net_z0 = 50 \<rparr>)) \<and>
   mat_transpose [[Some 2, Some 3], [Some 3, Some 2]] = [[Some 2, Some 3], [Some 3, Some (2::complex)]] \<and>
   shared_diagonal [[Some 2, Some 3], [Some 3, Some (2::complex)]]"
proof -
  let ?N = "\<lparr> net_f = [1], net_s = [[[Some 1, Some 2], [Some 4, Some 3]]], net_z0 = 50 \<rparr>"
  have mem: "[[Some 2, Some 3], [Some 3, Some 2]] \<in> set (net_s (enforce_reciprocal_symmetric ?N))"
    by (simp add: enforce_reciprocal_symmetric_def average_diagonal_def fill_diagonal_def
        reciprocal_part_def np_mean_def np_diag_def upt_rec)
  show ?thesis
    using enforce_reciprocal_symmetric_invariant [of ?N] mem by blast
qed

lemma foldl_fadd_replicate:
  "foldl fadd (Some a) (replicate n (Some v)) = Some (a + of_nat n * v)"
  by (induction n arbitrary: a) (simp_all add: algebra_simps)

lemma foldl_fadd_None: "foldl fadd None xs = None"
  by (induction xs) simp_all

lemma foldl_fadd_replicate_None:
  "0 < n \<Longrightarrow> foldl fadd a (replicate n None) = None"
  by (cases n; cases a) (simp_all add: foldl_fadd_None)

lemma np_mean_replicate: "0 < n \<Longrightarrow> np_mean (replicate n v) = v"
  by (cases v) (simp_all add: np_mean_def foldl_fadd_replicate foldl_fadd_replicate_None)

lemma square_mat_transpose: "square (length m) (mat_transpose m)"
  by (simp add: square_def mat_transpose_def list_all_iff)

lemma mat_transpose_nth:
  "i < length m \<Longrightarrow> j < length m \<Longrightarrow> mat_transpose m ! i ! j = m ! j ! i"
  by (simp add: mat_transpose_def)

lemma np_diag_shared:
  assumes "shared_diagonal m" and "i < length m"
  shows "np_diag m = replicate (length m) (m ! i ! i)"
proof (rule nth_equalityI)
  show "length (np_diag m) = length (replicate (length m) (m ! i ! i))"
    by (simp add: np_diag_def)
  fix k assume "k < length (np_diag m)"
  then have k: "k < length m" by (simp add: np_diag_def)
  have "m ! k ! k = m ! i ! i"
    using assms k unfolding shared_diagonal_iff by blast
  then show "np_diag m ! k = replicate (length m) (m ! i ! i) ! k"
    using k by (simp add: np_diag_def)
qed

lemma np_diag_reciprocal_part:
  assumes "mat_transpose m = m"
  shows "np_diag (reciprocal_part m) = np_diag m"
  by (rule nth_equalityI) (simp_all add: np_diag_def reciprocal_part_nth fdiv_double)

lemma symmetrize_fixed_point:
  assumes t: "mat_transpose m = m" and d: "shared_diagonal m"
  shows "average_diagonal (reciprocal_part m) = m"
proof (rule square_nth_eq [where n = "length m"])
  show "square (length m) (average_diagonal (reciprocal_part m))"
    using square_fill_diagonal [of "reciprocal_part m"] by (simp add: average_diagonal_def)
  show "square (length m) m"
    using square_mat_transpose [of m] t by simp
  fix i j assume i: "i < length m" and j: "j < length m"
  have sym: "m ! j ! i = m ! i ! j"
    using mat_transpose_nth [OF i j] t by simp
  have mean: "np_mean (np_diag (reciprocal_part m)) = m ! i ! i"
  proof -
    have pos: "0 < length m" using i by auto
    show ?thesis
      by (simp add: np_diag_reciprocal_part [OF t] np_diag_shared [OF d i] np_mean_replicate [OF pos])
  qed
  show "average_diagonal (reciprocal_part m) ! i ! j = m ! i ! j"
    using i j sym mean
    by (simp add: average_diagonal_def fill_diagonal_nth reciprocal_part_nth fdiv_double)
qed

lemma map_symmetrize_fixed:
  "list_all (\<lambda>m. mat_transpose m = m \<and> shared_diagonal m) ms \<Longrightarrow>
   map average_diagonal (map reciprocal_part ms) = ms"
  by (induction ms) (simp_all add: symmetrize_fixed_point)

lemma symmetrized_all:
  "list_all (\<lambda>m. mat_transpose m = m \<and> shared_diagonal m)
     (map average_diagonal (map reciprocal_part ms))"
  by (simp add: list_all_iff symmetrized_transpose symmetrized_shared_diagonal)

text \<open>
  Claim C5.  The symmetrizer is idempotent, and a network whose scattering matrix already
  equals its transpose with one shared diagonal value at every frequency is returned
  unchanged.
\<close>

theorem enforce_reciprocal_symmetric_idempotent:
  "enforce_reciprocal_symmetric (enforce_reciprocal_symmetric N) = enforce_reciprocal_symmetric N \<and>
   (reciprocal_symmetric N \<longrightarrow> enforce_reciprocal_symmetric N = N)"
proof
  show "enforce_reciprocal_symmetric (enforce_reciprocal_symmetric N) = enforce_reciprocal_symmetric N"
    using map_symmetrize_fixed [OF symmetrized_all [of "net_s N"]]
    by (simp add: enforce_reciprocal_symmetric_def)
  show "reciprocal_symmetric N \<longrightarrow> enforce_reciprocal_symmetric N = N"
    using map_symmetrize_fixed [of "net_s N"]
    by (simp add: enforce_reciprocal_symmetric_def reciprocal_symmetric_def)
qed


theorem enforce_reciprocal_symmetric_idempotent_witness:
  "reciprocal_symmetric
     \<lparr> net_f = [1, 2],
       net_s = [[[Some 2, Some 3], [Some 3, Some 2]], [[None, Some \<i>], [Some \<i>, None]]],
       net_z0 = 50 \<rparr> \<and>
   enforce_reciprocal_symmetric
     \<lparr> net_f = [1, 2],
       net_s = [[[Some 2, Some 3], [Some 3, Some 2]], [[None, Some \<i>], [Some \<i>, None]]],
       net_z0 = 50 \<rparr> =
     \<lparr> net_f = [1, 2],
       net_s = [[[Some 2, Some 3], [Some 3, Some 2]], [[None, Some \<i>], [Some \<i>, None]]],
       net_z0 = 50 \<rparr>"
proof -
  let ?N = "\<lparr> net_f = [1, 2],
       net_s = [[[Some 2, Some 3], [Some 3, Some 2]], [[None, Some \<i>], [Some \<i>, None]]],
       net_z0 = 50 \<rparr>"
  have h: "reciprocal_symmetric ?N"
    by code_simp
  show ?thesis
    using enforce_reciprocal_symmetric_idempotent [of ?N] h by blast
qed

section \<open>The conversions between scattering and impedance parameters\<close>

lemma bindE_Inr [simp]: "bindE (Inr x) k = k x"
  by (simp add: bindE_def)

lemma bindE_Inl [simp]: "bindE (Inl e) k = Inl e"
  by (simp add: bindE_def)

lemma bindE_eq_Inr: "bindE m k = Inr y \<longleftrightarrow> (\<exists>x. m = Inr x \<and> k x = Inr y)"
  by (cases m) simp_all

lemma mapE_Inr_iff: "mapE g xs = Inr ys \<longleftrightarrow> list_all2 (\<lambda>x y. g x = Inr y) xs ys"
proof (induction xs arbitrary: ys)
  case Nil
  show ?case by auto
next
  case (Cons x xs)
  show ?case
    by (cases ys) (auto simp add: bindE_eq_Inr Cons.IH)
qed

lemma square2_fin [simp]: "square 2 [[a, b], [c, d]]"
  by (simp add: square_def)

lemma z2s_point_fin:
  assumes "(a + z0) * (d + z0) - b * c \<noteq> 0"
  shows "z2s_point z0 (i, [[Some a, Some b], [Some c, Some d]]) =
     Inr [[Some (((a - z0) * (d + z0) - b * c) / ((a + z0) * (d + z0) - b * c)),
           Some (2 * z0 * b / ((a + z0) * (d + z0) - b * c))],
          [Some (2 * z0 * c / ((a + z0) * (d + z0) - b * c)),
           Some (((a + z0) * (d - z0) - b * c) / ((a + z0) * (d + z0) - b * c))]]"
  using assms by (simp add: z2s_point_def Let_def)

lemma z2s_point_singular:
  assumes "(a + z0) * (d + z0) - b * c = 0"
  shows "z2s_point z0 (i, [[Some a, Some b], [Some c, Some d]]) = Inl (SingularMatrixError i)"
  using assms by (simp add: z2s_point_def Let_def)

lemma s2z_point_fin:
  assumes "(1 - a) * (1 - d) - b * c \<noteq> 0"
  shows "s2z_point z0 (i, [[Some a, Some b], [Some c, Some d]]) =
     Inr [[Some (z0 * (((1 + a) * (1 - d) + b * c) / ((1 - a) * (1 - d) - b * c))),
           Some (z0 * (2 * b / ((1 - a) * (1 - d) - b * c)))],
          [Some (z0 * (2 * c / ((1 - a) * (1 - d) - b * c))),
           Some (z0 * (((1 - a) * (1 + d) + b * c) / ((1 - a) * (1 - d) - b * c)))]]"
  using assms by (simp add: s2z_point_def Let_def)

lemma one_minus_frac:
  fixes D :: complex
  shows "D \<noteq> 0 \<Longrightarrow> D - n = p \<Longrightarrow> 1 - n / D = p / D"
  by (auto simp add: diff_divide_distrib)

lemma one_plus_frac:
  fixes D :: complex
  shows "D \<noteq> 0 \<Longrightarrow> D + n = p \<Longrightarrow> 1 + n / D = p / D"
  by (auto simp add: add_divide_distrib)

lemma frac_prod_diff:
  fixes D :: complex
  assumes "D \<noteq> 0" and "p * q - r * s = t * D"
  shows "(p / D) * (q / D) - (r / D) * (s / D) = t / D"
proof -
  have "(p / D) * (q / D) - (r / D) * (s / D) = (p * q - r * s) / (D * D)"
    by (simp add: diff_divide_distrib)
  also have "\<dots> = t / D"
    using assms by simp
  finally show ?thesis .
qed

lemma frac_prod_sum:
  fixes D :: complex
  assumes "D \<noteq> 0" and "p * q + r * s = t * D"
  shows "(p / D) * (q / D) + (r / D) * (s / D) = t / D"
proof -
  have "(p / D) * (q / D) + (r / D) * (s / D) = (p * q + r * s) / (D * D)"
    by (simp add: add_divide_distrib)
  also have "\<dots> = t / D"
    using assms by simp
  finally show ?thesis .
qed

lemma s2z_z2s_point:
  assumes D: "(a + z0) * (d + z0) - b * c \<noteq> 0" and z: "z0 \<noteq> 0"
    and S: "z2s_point z0 (i, [[Some a, Some b], [Some c, Some d]]) = Inr S"
  shows "s2z_point z0 (j, S) = Inr [[Some a, Some b], [Some c, Some d]]"
proof -
  define D where "D = (a + z0) * (d + z0) - b * c"
  have Dn: "D \<noteq> 0" using D by (simp add: D_def)
  define s11 where "s11 = ((a - z0) * (d + z0) - b * c) / D"
  define s12 where "s12 = (2 * z0 * b) / D"
  define s21 where "s21 = (2 * z0 * c) / D"
  define s22 where "s22 = ((a + z0) * (d - z0) - b * c) / D"
  have Seq: "S = [[Some s11, Some s12], [Some s21, Some s22]]"
    using S z2s_point_fin [OF D, of i] by (simp add: s11_def s12_def s21_def s22_def D_def)
  have m11: "1 - s11 = (2 * z0 * (d + z0)) / D"
    unfolding s11_def by (rule one_minus_frac [OF Dn]) (simp add: D_def algebra_simps)
  have m22: "1 - s22 = (2 * z0 * (a + z0)) / D"
    unfolding s22_def by (rule one_minus_frac [OF Dn]) (simp add: D_def algebra_simps)
  have p11: "1 + s11 = (2 * (a * (d + z0) - b * c)) / D"
    unfolding s11_def by (rule one_plus_frac [OF Dn]) (simp add: D_def algebra_simps)
  have p22: "1 + s22 = (2 * (d * (a + z0) - b * c)) / D"
    unfolding s22_def by (rule one_plus_frac [OF Dn]) (simp add: D_def algebra_simps)
  have det: "(1 - s11) * (1 - s22) - s12 * s21 = (4 * z0 * z0) / D"
    unfolding m11 m22 s12_def s21_def
    by (rule frac_prod_diff [OF Dn]) (simp add: D_def algebra_simps)
  have detn: "(1 - s11) * (1 - s22) - s12 * s21 \<noteq> 0"
    using det Dn z by simp
  have n11: "(1 + s11) * (1 - s22) + s12 * s21 = (4 * z0 * a) / D"
    unfolding p11 m22 s12_def s21_def
    by (rule frac_prod_sum [OF Dn]) (simp add: D_def algebra_simps)
  have n22: "(1 - s11) * (1 + s22) + s12 * s21 = (4 * z0 * d) / D"
    unfolding m11 p22 s12_def s21_def
    by (rule frac_prod_sum [OF Dn]) (simp add: D_def algebra_simps)
  have e11: "z0 * (((1 + s11) * (1 - s22) + s12 * s21) / ((1 - s11) * (1 - s22) - s12 * s21)) = a"
    unfolding n11 det using Dn z by simp
  have e22: "z0 * (((1 - s11) * (1 + s22) + s12 * s21) / ((1 - s11) * (1 - s22) - s12 * s21)) = d"
    unfolding n22 det using Dn z by simp
  have e12: "z0 * (2 * s12 / ((1 - s11) * (1 - s22) - s12 * s21)) = b"
    by (subst det) (use Dn z in \<open>simp add: s12_def\<close>)
  have e21: "z0 * (2 * s21 / ((1 - s11) * (1 - s22) - s12 * s21)) = c"
    by (subst det) (use Dn z in \<open>simp add: s21_def\<close>)
  show ?thesis
    unfolding Seq s2z_point_fin [OF detn] e11 e12 e21 e22 ..
qed

section \<open>Impedance parameters of a tee network\<close>

lemma length2_cases: "length xs = 2 \<Longrightarrow> \<exists>a b. xs = [a, b]"
  by (cases xs; cases "tl xs") auto

lemma finite_two_port_iff:
  "finite_two_port m \<longleftrightarrow> (\<exists>a b c d. m = [[Some a, Some b], [Some c, Some d]])"
proof
  assume h: "finite_two_port m"
  then have "length m = 2" by (simp add: finite_two_port_def square_def)
  then obtain r1 r2 where m: "m = [r1, r2]" using length2_cases by blast
  have "length r1 = 2" "length r2 = 2"
    using h by (simp_all add: finite_two_port_def square_def m)
  then obtain a b c d where r: "r1 = [a, b]" "r2 = [c, d]"
    using length2_cases by blast
  show "\<exists>a b c d. m = [[Some a, Some b], [Some c, Some d]]"
    using h by (auto simp add: finite_two_port_def m r)
next
  assume "\<exists>a b c d. m = [[Some a, Some b], [Some c, Some d]]"
  then show "finite_two_port m"
    by (auto simp add: finite_two_port_def)
qed

lemma z2s_point_roundtrip:
  assumes fin: "finite_two_port m" and z: "z0 \<noteq> 0"
    and S: "z2s_point z0 (i, m) = Inr S"
  shows "s2z_point z0 (j, S) = Inr m"
proof -
  obtain a b c d where m: "m = [[Some a, Some b], [Some c, Some d]]"
    using fin finite_two_port_iff by blast
  have D: "(a + z0) * (d + z0) - b * c \<noteq> 0"
  proof
    assume "(a + z0) * (d + z0) - b * c = 0"
    from z2s_point_singular [OF this, of i] S show False by (simp add: m)
  qed
  show ?thesis
    using s2z_z2s_point [OF D z] S unfolding m by blast
qed

lemma network_z_from_z:
  assumes N: "network_from_z freqs z z0 = Inr N" and z0: "z0 \<noteq> 0"
    and fin: "list_all finite_two_port z"
  shows "network_z N = Inr z"
proof -
  obtain sm where sm: "mapE (z2s_point z0) (enumerate 0 z) = Inr sm"
    and Neq: "N = \<lparr> net_f = freqs, net_s = sm, net_z0 = z0 \<rparr>"
    using N by (auto simp add: network_from_z_def bindE_eq_Inr)
  have all2: "list_all2 (\<lambda>p S. z2s_point z0 p = Inr S) (enumerate 0 z) sm"
    using sm by (simp add: mapE_Inr_iff)
  then have len: "length sm = length z"
    by (auto dest: list_all2_lengthD)
  have pt: "z2s_point z0 (i, z ! i) = Inr (sm ! i)" if "i < length z" for i
    using list_all2_nthD [OF all2, of i] that by (simp add: nth_enumerate_eq)
  have "list_all2 (\<lambda>p Z. s2z_point z0 p = Inr Z) (enumerate 0 sm) z"
  proof (rule list_all2_all_nthI)
    show "length (enumerate 0 sm) = length z" by (simp add: len)
    fix i assume "i < length (enumerate 0 sm)"
    then have i: "i < length z" by (simp add: len)
    have f: "finite_two_port (z ! i)"
      using fin i by (simp add: list_all_length)
    show "s2z_point z0 (enumerate 0 sm ! i) = Inr (z ! i)"
      using z2s_point_roundtrip [OF f z0 pt [OF i]] i by (simp add: nth_enumerate_eq len)
  qed
  then show ?thesis
    by (simp add: network_z_def Neq mapE_Inr_iff)
qed

lemma tee_z_equal_lengths:
  assumes "length Z1 = n" "length Z2 = n" "length Z3 = n"
  shows "tee_z n Z1 Z2 Z3 =
    Inr (map (\<lambda>i. [[fadd (Z1 ! i) (Z2 ! i), Z2 ! i], [Z2 ! i, fadd (Z2 ! i) (Z3 ! i)]]) [0..<n])"
  using assms by (simp add: tee_z_def np_add_def np_column_def)


lemma z2s_point_zero_z0:
  assumes S: "z2s_point 0 (i, [[Some a, Some b], [Some c, Some d]]) = Inr S"
  shows "s2z_point 0 (j, S) = Inl (SingularMatrixError j)"
proof -
  have D: "(a + 0) * (d + 0) - b * c \<noteq> 0"
  proof
    assume "(a + 0) * (d + 0) - b * c = 0"
    from z2s_point_singular [OF this, of i] S show False by simp
  qed
  then have D': "a * d - b * c \<noteq> 0" by simp
  have "S = [[Some 1, Some 0], [Some 0, Some 1]]"
    using S z2s_point_fin [OF D, of i] D' by simp
  then show ?thesis
    by (simp add: s2z_point_def)
qed

lemma network_z_from_z_zero:
  assumes N: "network_from_z freqs z 0 = Inr N" and fin: "list_all finite_two_port z"
    and ne: "z \<noteq> []"
  shows "\<exists>e. network_z N = Inl e"
proof -
  obtain sm where sm: "mapE (z2s_point 0) (enumerate 0 z) = Inr sm"
    and Neq: "N = \<lparr> net_f = freqs, net_s = sm, net_z0 = 0 \<rparr>"
    using N by (auto simp add: network_from_z_def bindE_eq_Inr)
  obtain m ms where z: "z = m # ms" using ne by (cases z) auto
  obtain a b c d where m: "m = [[Some a, Some b], [Some c, Some d]]"
    using fin finite_two_port_iff by (auto simp add: z)
  obtain S Ss where smc: "sm = S # Ss" and S: "z2s_point 0 (0, m) = Inr S"
    using sm by (auto simp add: z enumerate_simps bindE_eq_Inr)
  have "s2z_point 0 (0, S) = Inl (SingularMatrixError 0)"
    using z2s_point_zero_z0 S unfolding m by blast
  then show ?thesis
    by (simp add: network_z_def Neq smc)
qed

lemma tee_network_network_z:
  assumes l1: "length Z1 = length freqs" and l2: "length Z2 = length freqs"
    and l3: "length Z3 = length freqs"
    and N: "tee_network freqs (map Some Z1) (map Some Z2) (map Some Z3) z0 = Inr N"
    and Z: "network_z N = Inr Z"
  shows "Z = map (\<lambda>i. [[Some (Z1 ! i + Z2 ! i), Some (Z2 ! i)],
                          [Some (Z2 ! i), Some (Z2 ! i + Z3 ! i)]]) [0..<length freqs]"
proof -
  let ?z = "map (\<lambda>i. [[Some (Z1 ! i + Z2 ! i), Some (Z2 ! i)],
                       [Some (Z2 ! i), Some (Z2 ! i + Z3 ! i)]]) [0..<length freqs]"
  have tz: "tee_z (length freqs) (map Some Z1) (map Some Z2) (map Some Z3) = Inr ?z"
    using l1 l2 l3 by (simp add: tee_z_equal_lengths)
  have built: "network_from_z freqs ?z z0 = Inr N"
    using N by (simp add: tee_network_def tz)
  have fin: "list_all finite_two_port ?z"
    by (simp add: list_all_iff finite_two_port_def)
  show ?thesis
  proof (cases "z0 = 0")
    case False
    from network_z_from_z [OF built False fin] Z show ?thesis by simp
  next
    case True
    show ?thesis
    proof (cases "?z = []")
      case e: True
      then have "length freqs = 0" by simp
      moreover have "net_s N = []"
        using built e by (auto simp add: network_from_z_def bindE_eq_Inr)
      ultimately show ?thesis using Z by (simp add: network_z_def)
    next
      case ne: False
      from network_z_from_z_zero [OF built [unfolded True] fin ne] Z show ?thesis by auto
    qed
  qed
qed


text \<open>
  Claim C10.  Whatever the complex impedances, a network built by \<open>tee_network\<close> has the
  impedance matrix \<open>Z11 = Z1 + Z2\<close>, \<open>Z12 = Z21 = Z2\<close>, \<open>Z22 = Z2 + Z3\<close> at every
  frequency point whenever its impedance parameters exist: it is reciprocal.
\<close>

theorem tee_network_impedance_symmetric:
  assumes l1: "length Z1 = length freqs" and l2: "length Z2 = length freqs"
    and l3: "length Z3 = length freqs"
    and N: "tee_network freqs (map Some Z1) (map Some Z2) (map Some Z3) z0 = Inr N"
    and Z: "network_z N = Inr Z"
  shows "length Z = length freqs \<and>
    (\<forall>i<length freqs. Z ! i ! 0 ! 1 = Some (Z2 ! i) \<and> Z ! i ! 1 ! 0 = Some (Z2 ! i) \<and>
       Z ! i ! 0 ! 0 = Some (Z1 ! i + Z2 ! i) \<and> Z ! i ! 1 ! 1 = Some (Z2 ! i + Z3 ! i))"
  using tee_network_network_z [OF l1 l2 l3 N Z] by simp

theorem tee_network_impedance_symmetric_witness:
  "tee_network [1] (map Some [25]) (map Some [50]) (map Some [25]) 50 =
     Inr \<lparr> net_f = [1], net_s = [[[Some (1 / 21), Some (8 / 21)], [Some (8 / 21), Some (1 / 21)]]],
           net_z0 = 50 \<rparr> \<and>
   network_z \<lparr> net_f = [1], net_s = [[[Some (1 / 21), Some (8 / 21)], [Some (8 / 21), Some (1 / 21)]]],
           net_z0 = 50 \<rparr> = Inr [[[Some 75, Some 50], [Some 50, Some 75]]] \<and>
   [[[Some 75, Some 50], [Some 50, Some (75::complex)]]] ! 0 ! 0 ! 1 = Some ([50] ! 0)"
proof -
  let ?N = "\<lparr> net_f = [1], net_s = [[[Some (1 / 21), Some (8 / 21)], [Some (8 / 21), Some (1 / 21)]]],
           net_z0 = 50 \<rparr>"
  have b: "tee_network [1] (map Some [25]) (map Some [50]) (map Some [25]) 50 = Inr ?N"
    by (simp add: tee_network_def tee_z_def np_add_def np_column_def network_from_z_def
        z2s_point_def enumerate_simps)
  have z: "network_z ?N = Inr [[[Some 75, Some 50], [Some 50, Some 75]]]"
    by (simp add: network_z_def s2z_point_def enumerate_simps)
  show ?thesis
    using tee_network_impedance_symmetric [OF _ _ _ b z] b z by simp
qed

section \<open>The mirrored tee network\<close>

lemma fmul_commute: "fmul a b = fmul b a"
  by (cases a; cases b) simp_all

lemma square2_cases:
  assumes "square 2 m"
  obtains a b c d where "m = [[a, b], [c, d]]"
proof -
  have "length m = 2" using assms by (simp add: square_def)
  then obtain r1 r2 where m: "m = [r1, r2]" using length2_cases by blast
  have "length r1 = 2" "length r2 = 2"
    using assms by (simp_all add: square_def m)
  then obtain a b c d where "r1 = [a, b]" "r2 = [c, d]"
    using length2_cases by blast
  then show ?thesis using that m by blast
qed

lemma z2s_point_swap:
  assumes "square 2 m"
  shows "z2s_point z0 (i, swap_ports_mat m) = map_sum id swap_ports_mat (z2s_point z0 (i, m))"
proof -
  obtain a b c d where m: "m = [[a, b], [c, d]]"
    using assms by (rule square2_cases)
  show ?thesis
    unfolding m z2s_point_def swap_ports_mat_def
    by (cases a; cases b; cases c; cases d) (simp_all add: Let_def mult.commute)
qed

lemma mapE_z2s_swap:
  assumes "list_all (square 2) zs"
  shows "mapE (z2s_point z0) (enumerate n (map swap_ports_mat zs))
    = map_sum id (map swap_ports_mat) (mapE (z2s_point z0) (enumerate n zs))"
  using assms
proof (induction zs arbitrary: n)
  case Nil
  show ?case by simp
next
  case (Cons m ms)
  then have sq: "square 2 m" and rest: "list_all (square 2) ms" by simp_all
  show ?case
    by (cases "z2s_point z0 (n, m)"; cases "mapE (z2s_point z0) (enumerate (Suc n) ms)")
      (simp_all add: z2s_point_swap [OF sq] Cons.IH [OF rest])
qed

lemma network_from_z_swap:
  assumes "list_all (square 2) zs"
  shows "network_from_z freqs (map swap_ports_mat zs) z0
    = map_sum id swap_ports (network_from_z freqs zs z0)"
  by (cases "mapE (z2s_point z0) (enumerate 0 zs)")
    (simp_all add: network_from_z_def mapE_z2s_swap [OF assms] swap_ports_def)

lemma np_add_commute: "np_add xs ys = np_add ys xs"
proof -
  have "map2 fadd xs ys = map2 fadd ys xs" if "length xs = length ys"
    by (rule nth_equalityI) (use that in \<open>simp_all add: fadd_commute\<close>)
  then show ?thesis
    by (auto simp add: np_add_def fadd_commute)
qed

lemma np_add_error: "np_add xs ys = Inl e \<Longrightarrow> e = ValueError"
  by (auto simp add: np_add_def split: if_splits)

lemma np_column_error: "np_column n v = Inl e \<Longrightarrow> e = ValueError"
  by (auto simp add: np_column_def split: if_splits)

lemma tee_z_swap:
  "tee_z n Z3 Z2 Z1 = map_sum id (map swap_ports_mat) (tee_z n Z1 Z2 Z3)"
proof -
  have c1: "np_add Z3 Z2 = np_add Z2 Z3" and c2: "np_add Z2 Z1 = np_add Z1 Z2"
    by (rule np_add_commute)+
  show ?thesis
    unfolding tee_z_def c1 c2
    by (auto simp add: bindE_def swap_ports_mat_def split: sum.splits
        dest: np_add_error np_column_error)
qed

lemma tee_z_square: "tee_z n Z1 Z2 Z3 = Inr z \<Longrightarrow> list_all (square 2) z"
  by (auto simp add: tee_z_def bindE_eq_Inr list_all_iff)

text \<open>
  Claim C7.  The network built from \<open>(Z3, Z2, Z1)\<close> is the network built from
  \<open>(Z1, Z2, Z3)\<close> with ports 1 and 2 exchanged: the same scattering matrices with both
  indices swapped, and the same failure where the construction fails.
\<close>

theorem tee_network_mirror:
  "tee_network freqs Z3 Z2 Z1 z0 = map_sum id swap_ports (tee_network freqs Z1 Z2 Z3 z0)"
proof (cases "tee_z (length freqs) Z1 Z2 Z3")
  case (Inl e)
  then show ?thesis by (simp add: tee_network_def tee_z_swap [of _ Z3])
next
  case (Inr z)
  then show ?thesis
    by (simp add: tee_network_def tee_z_swap [of _ Z3] network_from_z_swap [OF tee_z_square [OF Inr]])
qed

section \<open>extract_pad at a frequency point\<close>

lemma extract_point_finite:
  assumes "pad_den p q \<noteq> 0"
  shows "extract_point (Some p) (Some q) =
    (Some (pad_Z1 p q), Some (p + q - pad_Z1 p q), Some (pad_k p q * pad_Z1 p q))"
proof -
  have k: "fdiv (fsub (Some 0) (fmul (Some q) (Some q)))
        (fmul (Some (- 1)) (fadd (fmul (fmul (Some 2) (Some q)) (Some p)) (fmul (Some q) (Some q))))
      = Some (pad_k p q)"
    using assms by (simp add: pad_k_def pad_den_def)
  show ?thesis
    unfolding extract_point_def k
    by (simp add: Let_def pad_Z1_def pad_x1_def pad_x2_def pad_disc_def pad_b_def pad_c_def)
qed

lemma extract_point_degenerate:
  assumes "pad_den p q = 0"
  shows "extract_point (Some p) (Some q) = (None, None, None)"
proof -
  have k: "fdiv (fsub (Some 0) (fmul (Some q) (Some q)))
        (fmul (Some (- 1)) (fadd (fmul (fmul (Some 2) (Some q)) (Some p)) (fmul (Some q) (Some q))))
      = None"
    using assms by (simp add: pad_den_def)
  show ?thesis
    unfolding extract_point_def k by (simp add: Let_def)
qed

lemma extract_point_None_left: "extract_point None y = (None, None, None)"
  by (cases y) (simp_all add: extract_point_def Let_def)

lemma extract_point_None_right: "extract_point x None = (None, None, None)"
  by (cases x) (simp_all add: extract_point_def Let_def)


lemma map_map2_same:
  "map h (map2 g (map a xs) (map b xs)) = map (\<lambda>x. h (g (a x) (b x))) xs"
  by (induction xs) simp_all

lemma extract_pad_Inr:
  assumes "network_z net = Inr Z"
  shows "extract_pad net =
    Inr (net_f net,
         map (\<lambda>m. fst (extract_point (m ! 0 ! 0) (m ! 1 ! 0))) Z,
         map (\<lambda>m. fst (snd (extract_point (m ! 0 ! 0) (m ! 1 ! 0)))) Z,
         map (\<lambda>m. snd (snd (extract_point (m ! 0 ! 0) (m ! 1 ! 0)))) Z)"
  unfolding extract_pad_def assms Let_def map_map2_same by (simp add: comp_def)

lemma extract_pad_Inl: "network_z net = Inl e \<Longrightarrow> extract_pad net = Inl e"
  by (simp add: extract_pad_def)

lemma s2z_point_not_degenerate: "s2z_point z0 p \<noteq> Inl (DegenerateModelError k)"
  by (cases p) (simp add: s2z_point_def Let_def)

lemma mapE_error_from:
  assumes "mapE g xs = Inl e"
  shows "\<exists>x \<in> set xs. g x = Inl e"
  using assms
proof (induction xs)
  case Nil
  then show ?case by simp
next
  case (Cons x xs)
  show ?case
  proof (cases "g x")
    case (Inl e')
    then show ?thesis using Cons.prems by simp
  next
    case (Inr y)
    then have "mapE g xs = Inl e"
      using Cons.prems by (cases "mapE g xs") simp_all
    then show ?thesis using Cons.IH by auto
  qed
qed

lemma extract_pad_never_degenerate_error:
  "extract_pad net \<noteq> Inl (DegenerateModelError k)"
proof (cases "network_z net")
  case (Inl e)
  then have "mapE (s2z_point (net_z0 net)) (enumerate 0 (net_s net)) = Inl e"
    by (simp add: network_z_def)
  from mapE_error_from [OF this] obtain x where "s2z_point (net_z0 net) x = Inl e"
    by blast
  then have "e \<noteq> DegenerateModelError k"
    using s2z_point_not_degenerate by metis
  then show ?thesis by (simp add: extract_pad_Inl [OF Inl])
next
  case (Inr Z)
  then show ?thesis by (simp add: extract_pad_Inr)
qed

text \<open>
  Claim C2 says that \<open>extract_pad\<close> fails with \<open>DegenerateModelError\<close> when the divisor
  \<open>2 * Z21 * Z11 + Z21^2\<close> of \<open>k\<close> is zero.  On the matched two-port without transmission
  (\<open>S = 0\<close>, so \<open>Z11 = 50\<close> and \<open>Z21 = 0\<close>) it returns, and the three values are non-finite.
\<close>

theorem extract_pad_degenerate_counterexample:
  "extract_pad \<lparr> net_f = [1], net_s = [[[Some 0, Some 0], [Some 0, Some 0]]], net_z0 = 50 \<rparr>
     = Inr ([1], [None], [None], [None]) \<and>
   extract_pad \<lparr> net_f = [1], net_s = [[[Some 0, Some 0], [Some 0, Some 0]]], net_z0 = 50 \<rparr>
     \<noteq> Inl (DegenerateModelError 0) \<and>
   network_z \<lparr> net_f = [1], net_s = [[[Some 0, Some 0], [Some 0, Some 0]]], net_z0 = 50 \<rparr>
     = Inr [[[Some 50, Some 0], [Some 0, Some 50]]]"
  by (simp add: extract_pad_def network_z_def s2z_point_def extract_point_def Let_def)

text \<open>
  Claim C2, amended.  When the impedance parameters exist and the divisor of \<open>k\<close> is zero at
  a frequency point, \<open>extract_pad\<close> raises nothing: it returns, with non-finite \<open>Z1\<close>, \<open>Z2\<close>
  and \<open>Z3\<close> at that point.
\<close>

theorem extract_pad_degenerate_nonfinite:
  assumes Z: "network_z net = Inr Z" and i: "i < length Z"
    and p: "Z ! i ! 0 ! 0 = Some Z11" and q: "Z ! i ! 1 ! 0 = Some Z21"
    and den: "2 * Z21 * Z11 + Z21 * Z21 = 0"
  shows "\<exists>Z1 Z2 Z3. extract_pad net = Inr (net_f net, Z1, Z2, Z3) \<and>
           length Z1 = length Z \<and> length Z2 = length Z \<and> length Z3 = length Z \<and>
           Z1 ! i = None \<and> Z2 ! i = None \<and> Z3 ! i = None"
proof -
  have d: "pad_den Z11 Z21 = 0" using den by (simp add: pad_den_def)
  show ?thesis
    using i p q by (simp add: extract_pad_Inr [OF Z] extract_point_degenerate [OF d])
qed

theorem extract_pad_degenerate_nonfinite_witness:
  "network_z \<lparr> net_f = [1], net_s = [[[Some 0, Some 0], [Some 0, Some 0]]], net_z0 = 50 \<rparr>
     = Inr [[[Some 50, Some 0], [Some 0, Some 50]]] \<and>
   (2 * 0 * 50 + 0 * 0 = (0::complex)) \<and>
   (\<exists>Z1 Z2 Z3. extract_pad \<lparr> net_f = [1], net_s = [[[Some 0, Some 0], [Some 0, Some 0]]], net_z0 = 50 \<rparr>
       = Inr ([1], Z1, Z2, Z3) \<and> Z1 ! 0 = None \<and> Z2 ! 0 = None \<and> Z3 ! 0 = None)"
proof -
  let ?N = "\<lparr> net_f = [1], net_s = [[[Some 0, Some 0], [Some 0, Some 0]]], net_z0 = 50 \<rparr>"
  have z: "network_z ?N = Inr [[[Some 50, Some 0], [Some 0, Some 50]]]"
    by (simp add: network_z_def s2z_point_def Let_def)
  have "\<exists>Z1 Z2 Z3. extract_pad ?N = Inr ([1], Z1, Z2, Z3) \<and>
      Z1 ! 0 = None \<and> Z2 ! 0 = None \<and> Z3 ! 0 = None"
    using extract_pad_degenerate_nonfinite [OF z, of 0 50 0] by auto
  then show ?thesis
    using z by simp
qed

section \<open>The root selection of extract_pad\<close>

lemma pad_den_zero_iff: "pad_den p q = 0 \<longleftrightarrow> 2 * q * p + q * q = 0"
proof -
  have "pad_den p q = - (2 * q * p + q * q)"
    by (simp add: pad_den_def)
  then show ?thesis
    by (simp only: neg_equal_0_iff_equal)
qed

lemma pad_roots_sum: "pad_x1 p q + pad_x2 p q = 2 * (p + q * pad_k p q)"
  by (simp add: pad_x1_def pad_x2_def pad_b_def field_simps)

lemma pad_Z1_imag:
  "0 \<le> Im (pad_Z1 p q) \<longleftrightarrow> 0 \<le> Im (pad_x1 p q) \<or> 0 \<le> Im (pad_x2 p q)"
  by (simp add: pad_Z1_def)

lemma pad_Z1_imag_sufficient:
  assumes "0 \<le> Im (p + q * pad_k p q)"
  shows "0 \<le> Im (pad_Z1 p q)"
proof -
  have "Im (pad_x1 p q) + Im (pad_x2 p q) = 2 * Im (p + q * pad_k p q)"
    using arg_cong [OF pad_roots_sum [of p q], of Im] by simp
  then have "0 \<le> Im (pad_x1 p q) \<or> 0 \<le> Im (pad_x2 p q)"
    using assms by linarith
  then show ?thesis by (simp add: pad_Z1_imag)
qed

lemma pad_x1_root:
  "pad_x1 p q * pad_x1 p q + pad_b p q * pad_x1 p q + pad_c p q = 0"
proof -
  have s: "csqrt (pad_disc p q) * csqrt (pad_disc p q) = pad_b p q * pad_b p q - 4 * pad_c p q"
    using power2_csqrt [of "pad_disc p q"] by (simp add: power2_eq_square pad_disc_def)
  have "4 * (pad_x1 p q * pad_x1 p q + pad_b p q * pad_x1 p q + pad_c p q)
      = csqrt (pad_disc p q) * csqrt (pad_disc p q) - (pad_b p q * pad_b p q - 4 * pad_c p q)"
    by (simp add: pad_x1_def field_simps)
  then have "4 * (pad_x1 p q * pad_x1 p q + pad_b p q * pad_x1 p q + pad_c p q) = 0"
    by (simp only: s diff_self)
  then show ?thesis
    by (metis mult_eq_0_iff zero_neq_numeral)
qed

lemma pad_x2_root:
  "pad_x2 p q * pad_x2 p q + pad_b p q * pad_x2 p q + pad_c p q = 0"
proof -
  have s: "csqrt (pad_disc p q) * csqrt (pad_disc p q) = pad_b p q * pad_b p q - 4 * pad_c p q"
    using power2_csqrt [of "pad_disc p q"] by (simp add: power2_eq_square pad_disc_def)
  have "4 * (pad_x2 p q * pad_x2 p q + pad_b p q * pad_x2 p q + pad_c p q)
      = csqrt (pad_disc p q) * csqrt (pad_disc p q) - (pad_b p q * pad_b p q - 4 * pad_c p q)"
    by (simp add: pad_x2_def field_simps)
  then have "4 * (pad_x2 p q * pad_x2 p q + pad_b p q * pad_x2 p q + pad_c p q) = 0"
    by (simp only: s diff_self)
  then show ?thesis
    by (metis mult_eq_0_iff zero_neq_numeral)
qed

lemma pad_Z1_root:
  "pad_Z1 p q * pad_Z1 p q + pad_b p q * pad_Z1 p q + pad_c p q = 0"
  using pad_x1_root [of p q] pad_x2_root [of p q] by (simp add: pad_Z1_def)


lemma network_from_z_net_f: "network_from_z freqs z z0 = Inr N \<Longrightarrow> net_f N = freqs"
  by (auto simp add: network_from_z_def bindE_eq_Inr)

lemma extract_pad_from_z:
  assumes N: "network_from_z freqs z z0 = Inr N" and z0: "z0 \<noteq> 0"
    and fin: "list_all finite_two_port z"
  shows "extract_pad N =
    Inr (freqs,
         map (\<lambda>m. fst (extract_point (m ! 0 ! 0) (m ! 1 ! 0))) z,
         map (\<lambda>m. fst (snd (extract_point (m ! 0 ! 0) (m ! 1 ! 0)))) z,
         map (\<lambda>m. snd (snd (extract_point (m ! 0 ! 0) (m ! 1 ! 0)))) z)"
  using extract_pad_Inr [OF network_z_from_z [OF N z0 fin]] network_from_z_net_f [OF N]
  by simp

lemma network_from_z_single:
  assumes "(a + z0) * (d + z0) - b * c \<noteq> 0"
  shows "\<exists>N. network_from_z freqs [[[Some a, Some b], [Some c, Some d]]] z0 = Inr N"
  by (simp add: network_from_z_def z2s_point_fin [OF assms])

lemma csqrt_neg_square:
  assumes "0 \<le> r"
  shows "csqrt (- (of_real r * of_real r)) = \<i> * of_real r"
proof (rule csqrt_unique)
  have "(\<i> * of_real r) * (\<i> * of_real r) = (\<i> * \<i>) * (of_real r * of_real r)"
    by (simp only: mult_ac)
  then show "(\<i> * of_real r)\<^sup>2 = - (of_real r * of_real r)"
    by (simp add: power2_eq_square)
  show "0 < Re (\<i> * of_real r) \<or> Re (\<i> * of_real r) = 0 \<and> 0 \<le> Im (\<i> * of_real r)"
    using assms by simp
qed

lemma pad_example_down:
  "pad_k (- (7 * \<i>)) (- (2 * \<i>)) = 1 / 8"
  "pad_Z1 (- (7 * \<i>)) (- (2 * \<i>)) = - (10 * \<i>)"
proof -
  show k: "pad_k (- (7 * \<i>)) (- (2 * \<i>)) = 1 / 8"
    by (simp add: pad_k_def pad_den_def)
  have b: "pad_b (- (7 * \<i>)) (- (2 * \<i>)) = (29 / 2) * \<i>"
    by (simp add: pad_b_def k)
  have "pad_disc (- (7 * \<i>)) (- (2 * \<i>)) = - (of_real (11 / 2) * of_real (11 / 2))"
    by (simp add: pad_disc_def b pad_c_def)
  then have s: "csqrt (pad_disc (- (7 * \<i>)) (- (2 * \<i>))) = \<i> * of_real (11 / 2)"
    using csqrt_neg_square [of "11 / 2"] by simp
  have x1: "pad_x1 (- (7 * \<i>)) (- (2 * \<i>)) = - ((9 / 2) * \<i>)"
    by (simp add: pad_x1_def s b)
  have x2: "pad_x2 (- (7 * \<i>)) (- (2 * \<i>)) = - (10 * \<i>)"
    by (simp add: pad_x2_def s b)
  show "pad_Z1 (- (7 * \<i>)) (- (2 * \<i>)) = - (10 * \<i>)"
    by (simp add: pad_Z1_def x1 x2)
qed

text \<open>
  Claim C3 says that the returned \<open>Z1\<close> has a non-negative imaginary part at every frequency
  point.  For the purely reactive two-port with \<open>Z11 = Z22 = -7j\<close> and \<open>Z12 = Z21 = -2j\<close>
  (reference 50) both roots of the quadratic, \<open>-4.5j\<close> and \<open>-10j\<close>, lie below the real axis,
  and \<open>extract_pad\<close> returns \<open>Z1 = -10j\<close>.
\<close>

theorem extract_pad_imag_counterexample:
  "bindE (network_from_z [1] [[[Some (- (7 * \<i>)), Some (- (2 * \<i>))],
                              [Some (- (2 * \<i>)), Some (- (7 * \<i>))]]] 50) extract_pad
     = Inr ([1], [Some (- (10 * \<i>))], [Some \<i>], [Some (- ((5 / 4) * \<i>))]) \<and>
   Im (- (10 * \<i>)) < 0"
proof -
  let ?z = "[[[Some (- (7 * \<i>)), Some (- (2 * \<i>))], [Some (- (2 * \<i>)), Some (- (7 * \<i>))]]]"
  have "(- (7 * \<i>) + 50) * (- (7 * \<i>) + 50) - (- (2 * \<i>)) * (- (2 * \<i>)) \<noteq> 0"
    by (simp add: complex_eq_iff)
  from network_from_z_single [OF this] obtain N where N: "network_from_z [1] ?z 50 = Inr N"
    by blast
  have fin: "list_all finite_two_port ?z"
    by (simp add: finite_two_port_def)
  have den: "pad_den (- (7 * \<i>)) (- (2 * \<i>)) \<noteq> 0"
    by (simp add: pad_den_def)
  have "extract_pad N = Inr ([1], [Some (- (10 * \<i>))], [Some \<i>], [Some (- ((5 / 4) * \<i>))])"
    using extract_pad_from_z [OF N _ fin]
    by (simp add: extract_point_finite [OF den] pad_example_down)
  then show ?thesis by (simp add: N)
qed

text \<open>
  Claim C3, amended.  At a frequency point where \<open>Z11\<close> and \<open>Z21\<close> are finite and the divisor
  of \<open>k\<close> is not zero, the returned \<open>Z1\<close> is the root \<open>x1\<close> (the \<open>+\<close> branch) when
  \<open>Im x1 \<ge> 0\<close> and the root \<open>x2\<close> otherwise.  Its imaginary part is non-negative exactly
  when one of the two roots has a non-negative imaginary part, which is the case whenever
  \<open>Im (Z11 + Z21 * k) \<ge> 0\<close>.
\<close>

theorem extract_pad_root_selection:
  assumes Z: "network_z net = Inr Z" and i: "i < length Z"
    and p: "Z ! i ! 0 ! 0 = Some Z11" and q: "Z ! i ! 1 ! 0 = Some Z21"
    and den: "2 * Z21 * Z11 + Z21 * Z21 \<noteq> 0"
  shows "\<exists>Z1 Z2 Z3. extract_pad net = Inr (net_f net, Z1, Z2, Z3) \<and>
           Z1 ! i = Some (pad_Z1 Z11 Z21) \<and>
           pad_Z1 Z11 Z21 = (if 0 \<le> Im (pad_x1 Z11 Z21) then pad_x1 Z11 Z21 else pad_x2 Z11 Z21) \<and>
           (0 \<le> Im (pad_Z1 Z11 Z21) \<longleftrightarrow>
              0 \<le> Im (pad_x1 Z11 Z21) \<or> 0 \<le> Im (pad_x2 Z11 Z21)) \<and>
           (0 \<le> Im (Z11 + Z21 * pad_k Z11 Z21) \<longrightarrow> 0 \<le> Im (pad_Z1 Z11 Z21))"
proof -
  have d: "pad_den Z11 Z21 \<noteq> 0" using den pad_den_zero_iff by blast
  have "map (\<lambda>m. fst (extract_point (m ! 0 ! 0) (m ! 1 ! 0))) Z ! i = Some (pad_Z1 Z11 Z21)"
    using i p q by (simp add: extract_point_finite [OF d])
  moreover have "pad_Z1 Z11 Z21 = (if 0 \<le> Im (pad_x1 Z11 Z21) then pad_x1 Z11 Z21 else pad_x2 Z11 Z21)"
    by (simp add: pad_Z1_def)
  ultimately show ?thesis
    using extract_pad_Inr [OF Z] pad_Z1_imag [of Z11 Z21] pad_Z1_imag_sufficient [of Z11 Z21]
    by blast
qed

theorem extract_pad_root_selection_witness:
  "network_z \<lparr> net_f = [1], net_s = [[[Some (1 / 21), Some (8 / 21)], [Some (8 / 21), Some (1 / 21)]]],
       net_z0 = 50 \<rparr> = Inr [[[Some 75, Some 50], [Some 50, Some 75]]] \<and>
   (2 * 50 * 75 + 50 * 50 \<noteq> (0::complex)) \<and>
   0 \<le> Im (75 + 50 * pad_k 75 50) \<and>
   (\<exists>Z1 Z2 Z3. extract_pad \<lparr> net_f = [1],
        net_s = [[[Some (1 / 21), Some (8 / 21)], [Some (8 / 21), Some (1 / 21)]]], net_z0 = 50 \<rparr>
          = Inr ([1], Z1, Z2, Z3) \<and>
        Z1 ! 0 = Some (pad_Z1 75 50) \<and> 0 \<le> Im (pad_Z1 75 50))"
proof -
  let ?N = "\<lparr> net_f = [1], net_s = [[[Some (1 / 21), Some (8 / 21)], [Some (8 / 21), Some (1 / 21)]]],
       net_z0 = 50 \<rparr>"
  have z: "network_z ?N = Inr [[[Some 75, Some 50], [Some 50, Some 75]]]"
    by (simp add: network_z_def s2z_point_def Let_def)
  have den: "2 * 50 * 75 + 50 * 50 \<noteq> (0::complex)"
    by simp
  have im: "0 \<le> Im (75 + 50 * pad_k 75 50)"
    by (simp add: pad_k_def pad_den_def)
  have "\<exists>Z1 Z2 Z3. extract_pad ?N = Inr ([1], Z1, Z2, Z3) \<and>
        Z1 ! 0 = Some (pad_Z1 75 50) \<and> 0 \<le> Im (pad_Z1 75 50)"
    using extract_pad_root_selection [OF z _ _ _ den, of 0] im by auto
  then show ?thesis using z den im by blast
qed

section \<open>extract_pad on a synthesized tee network\<close>

lemma pad_Z1_quadratic:
  "pad_Z1 p q * pad_Z1 p q - 2 * (p + q * pad_k p q) * pad_Z1 p q + (p * p - q * q) = 0"
  using pad_Z1_root [of p q] by (simp add: pad_b_def pad_c_def algebra_simps)

lemma tee_point_never_round_trips:
  assumes "pad_den (a + b) b \<noteq> 0"
  shows "\<not> (pad_Z1 (a + b) b = a \<and> a + b + b - pad_Z1 (a + b) b = b)"
proof
  assume h: "pad_Z1 (a + b) b = a \<and> a + b + b - pad_Z1 (a + b) b = b"
  then have e1: "pad_Z1 (a + b) b = a" and e2: "a + b + b - pad_Z1 (a + b) b = b"
    by blast+
  have "a + b + b - a = b" using e2 unfolding e1 .
  then have "b = 0" by simp
  then have "pad_den (a + b) b = 0" by (simp add: pad_den_def)
  then show False using assms by simp
qed

lemma extract_pad_defined: "extract_pad net = Inr r \<Longrightarrow> \<exists>Z. network_z net = Inr Z"
  by (cases "network_z net") (simp_all add: extract_pad_Inl)

text \<open>
  Claim C1 says that \<open>extract_pad\<close> on the impedance parameters of
  \<open>tee_network(f, Z1, Z2, Z3, z0)\<close> returns \<open>(Z1, Z2, Z3)\<close> when \<open>Im Z1 \<ge> 0\<close>.  For the pad
  \<open>Z1 = Z3 = 11j\<close>, \<open>Z2 = -4j\<close> (reference 50) it returns \<open>(15j, -12j, -6j)\<close>.
\<close>

theorem extract_pad_round_trip_counterexample:
  "bindE (tee_network [1] [Some (11 * \<i>)] [Some (- (4 * \<i>))] [Some (11 * \<i>)] 50) extract_pad
     = Inr ([1], [Some (15 * \<i>)], [Some (- (12 * \<i>))], [Some (- (6 * \<i>))]) \<and>
   0 \<le> Im (11 * \<i>) \<and>
   \<not> spec_rel_close (15 * \<i>) (11 * \<i>) \<and>
   \<not> spec_rel_close (- (12 * \<i>)) (- (4 * \<i>)) \<and>
   \<not> spec_rel_close (- (6 * \<i>)) (11 * \<i>)"
proof -
  let ?z = "[[[Some (7 * \<i>), Some (- (4 * \<i>))], [Some (- (4 * \<i>)), Some (7 * \<i>)]]]"
  have tz: "tee_z (Suc 0) [Some (11 * \<i>)] [Some (- (4 * \<i>))] [Some (11 * \<i>)] = Inr ?z"
    by (simp add: tee_z_def np_add_def np_column_def)
  have "(7 * \<i> + 50) * (7 * \<i> + 50) - (- (4 * \<i>)) * (- (4 * \<i>)) \<noteq> 0"
    by (simp add: complex_eq_iff)
  from network_from_z_single [OF this] obtain N where N: "network_from_z [1] ?z 50 = Inr N"
    by blast
  have fin: "list_all finite_two_port ?z"
    by (simp add: finite_two_port_def)
  have den: "pad_den (7 * \<i>) (- (4 * \<i>)) \<noteq> 0"
    by (simp add: pad_den_def)
  have k: "pad_k (7 * \<i>) (- (4 * \<i>)) = - (2 / 5)"
    by (simp add: pad_k_def pad_den_def)
  have b: "pad_b (7 * \<i>) (- (4 * \<i>)) = - ((86 / 5) * \<i>)"
    by (simp add: pad_b_def k)
  have "pad_disc (7 * \<i>) (- (4 * \<i>)) = - (of_real (64 / 5) * of_real (64 / 5))"
    by (simp add: pad_disc_def b pad_c_def)
  then have s: "csqrt (pad_disc (7 * \<i>) (- (4 * \<i>))) = \<i> * of_real (64 / 5)"
    using csqrt_neg_square [of "64 / 5"] by simp
  have x1: "pad_x1 (7 * \<i>) (- (4 * \<i>)) = 15 * \<i>"
    by (simp add: pad_x1_def s b)
  have Z1: "pad_Z1 (7 * \<i>) (- (4 * \<i>)) = 15 * \<i>"
    by (simp add: pad_Z1_def x1)
  have "extract_pad N = Inr ([1], [Some (15 * \<i>)], [Some (- (12 * \<i>))], [Some (- (6 * \<i>))])"
    using extract_pad_from_z [OF N _ fin]
    by (simp add: extract_point_finite [OF den] Z1 k)
  then have "bindE (tee_network [1] [Some (11 * \<i>)] [Some (- (4 * \<i>))] [Some (11 * \<i>)] 50) extract_pad
     = Inr ([1], [Some (15 * \<i>)], [Some (- (12 * \<i>))], [Some (- (6 * \<i>))])"
    by (simp add: tee_network_def tz N)
  moreover have "\<not> spec_rel_close (15 * \<i>) (11 * \<i>)"
    by (simp add: spec_rel_close_def norm_mult)
  moreover have "\<not> spec_rel_close (- (12 * \<i>)) (- (4 * \<i>))"
    by (simp add: spec_rel_close_def norm_mult)
  moreover have "\<not> spec_rel_close (- (6 * \<i>)) (11 * \<i>)"
    by (simp add: spec_rel_close_def norm_mult)
  ultimately show ?thesis by simp
qed


lemma tee_network_net_f: "tee_network freqs Z1 Z2 Z3 z0 = Inr N \<Longrightarrow> net_f N = freqs"
  by (auto simp add: tee_network_def bindE_eq_Inr network_from_z_net_f)

lemma tee_extract_point:
  fixes a b :: complex
  defines "r \<equiv> extract_point (Some (a + b)) (Some b)"
  shows "(2 * b * (a + b) + b * b = 0 \<longrightarrow> r = (None, None, None)) \<and>
    (2 * b * (a + b) + b * b \<noteq> 0 \<longrightarrow>
       (\<exists>x. r = (Some x, Some (a + 2 * b - x), Some (pad_k (a + b) b * x)) \<and>
            x * x - 2 * (a + b + b * pad_k (a + b) b) * x + ((a + b) * (a + b) - b * b) = 0)) \<and>
    \<not> (fst r = Some a \<and> fst (snd r) = Some b)"
proof (cases "pad_den (a + b) b = 0")
  case True
  then have "r = (None, None, None)"
    by (simp add: r_def extract_point_degenerate)
  then show ?thesis
    using True pad_den_zero_iff [of "a + b" b] by simp
next
  case False
  have r: "r = (Some (pad_Z1 (a + b) b), Some (a + 2 * b - pad_Z1 (a + b) b),
                Some (pad_k (a + b) b * pad_Z1 (a + b) b))"
    by (simp add: r_def extract_point_finite [OF False])
  have never: "\<not> (fst r = Some a \<and> fst (snd r) = Some b)"
    using tee_point_never_round_trips [OF False] by (simp add: r)
  show ?thesis
    using False pad_den_zero_iff [of "a + b" b] r never pad_Z1_quadratic [of "a + b" b]
    by blast
qed

text \<open>
  Claim C1, amended.  On the impedance parameters of \<open>tee_network(f, Z1, Z2, Z3, z0)\<close>,
  \<open>extract_pad\<close> returns \<open>f\<close> and, at each frequency point where \<open>2 * Z2 * (Z1 + Z2) + Z2^2\<close>
  is not zero, finite values \<open>(Z1', Z2', Z3')\<close> such that \<open>Z1'\<close> is a root of
  \<open>x^2 - 2 * (Z11 + Z21 * k) * x + (Z11^2 - Z21^2)\<close> for \<open>Z11 = Z1 + Z2\<close> and \<open>Z21 = Z2\<close>,
  \<open>Z2' = Z1 + 2 * Z2 - Z1'\<close> and \<open>Z3' = k * Z1'\<close>; where that divisor is zero the three
  values are non-finite.  \<open>Z3\<close> is not used, and \<open>Z1' = Z1\<close> and \<open>Z2' = Z2\<close> hold together
  at no frequency point.
\<close>

theorem extract_pad_of_tee_network:
  assumes l1: "length Z1 = length freqs" and l2: "length Z2 = length freqs"
    and l3: "length Z3 = length freqs"
    and N: "tee_network freqs (map Some Z1) (map Some Z2) (map Some Z3) z0 = Inr N"
    and E: "extract_pad N = Inr (f', Z1', Z2', Z3')"
  shows "f' = freqs \<and> length Z1' = length freqs \<and> length Z2' = length freqs \<and>
    length Z3' = length freqs \<and>
    (\<forall>i<length freqs.
       (2 * Z2 ! i * (Z1 ! i + Z2 ! i) + Z2 ! i * Z2 ! i = 0 \<longrightarrow>
          Z1' ! i = None \<and> Z2' ! i = None \<and> Z3' ! i = None) \<and>
       (2 * Z2 ! i * (Z1 ! i + Z2 ! i) + Z2 ! i * Z2 ! i \<noteq> 0 \<longrightarrow>
          (\<exists>x. Z1' ! i = Some x \<and>
               x * x - 2 * (Z1 ! i + Z2 ! i + Z2 ! i * pad_k (Z1 ! i + Z2 ! i) (Z2 ! i)) * x
                 + ((Z1 ! i + Z2 ! i) * (Z1 ! i + Z2 ! i) - Z2 ! i * Z2 ! i) = 0 \<and>
               Z2' ! i = Some (Z1 ! i + 2 * Z2 ! i - x) \<and>
               Z3' ! i = Some (pad_k (Z1 ! i + Z2 ! i) (Z2 ! i) * x))) \<and>
       \<not> (Z1' ! i = Some (Z1 ! i) \<and> Z2' ! i = Some (Z2 ! i)))"
proof -
  obtain Z where Z: "network_z N = Inr Z"
    using extract_pad_defined [OF E] by blast
  have Zeq: "Z = map (\<lambda>i. [[Some (Z1 ! i + Z2 ! i), Some (Z2 ! i)],
                          [Some (Z2 ! i), Some (Z2 ! i + Z3 ! i)]]) [0..<length freqs]"
    by (rule tee_network_network_z [OF l1 l2 l3 N Z])
  have lenZ: "length Z = length freqs"
    by (simp add: Zeq)
  have f: "f' = freqs"
    and e1: "Z1' = map (\<lambda>m. fst (extract_point (m ! 0 ! 0) (m ! 1 ! 0))) Z"
    and e2: "Z2' = map (\<lambda>m. fst (snd (extract_point (m ! 0 ! 0) (m ! 1 ! 0)))) Z"
    and e3: "Z3' = map (\<lambda>m. snd (snd (extract_point (m ! 0 ! 0) (m ! 1 ! 0)))) Z"
    using E extract_pad_Inr [OF Z] tee_network_net_f [OF N] by simp_all
  have point: "Z1' ! i = fst (extract_point (Some (Z1 ! i + Z2 ! i)) (Some (Z2 ! i))) \<and>
      Z2' ! i = fst (snd (extract_point (Some (Z1 ! i + Z2 ! i)) (Some (Z2 ! i)))) \<and>
      Z3' ! i = snd (snd (extract_point (Some (Z1 ! i + Z2 ! i)) (Some (Z2 ! i))))"
    if "i < length freqs" for i
    using that by (simp add: e1 e2 e3 Zeq)
  have "(2 * Z2 ! i * (Z1 ! i + Z2 ! i) + Z2 ! i * Z2 ! i = 0 \<longrightarrow>
          Z1' ! i = None \<and> Z2' ! i = None \<and> Z3' ! i = None) \<and>
       (2 * Z2 ! i * (Z1 ! i + Z2 ! i) + Z2 ! i * Z2 ! i \<noteq> 0 \<longrightarrow>
          (\<exists>x. Z1' ! i = Some x \<and>
               x * x - 2 * (Z1 ! i + Z2 ! i + Z2 ! i * pad_k (Z1 ! i + Z2 ! i) (Z2 ! i)) * x
                 + ((Z1 ! i + Z2 ! i) * (Z1 ! i + Z2 ! i) - Z2 ! i * Z2 ! i) = 0 \<and>
               Z2' ! i = Some (Z1 ! i + 2 * Z2 ! i - x) \<and>
               Z3' ! i = Some (pad_k (Z1 ! i + Z2 ! i) (Z2 ! i) * x))) \<and>
       \<not> (Z1' ! i = Some (Z1 ! i) \<and> Z2' ! i = Some (Z2 ! i))"
    if i: "i < length freqs" for i
    using tee_extract_point [of "Z2 ! i" "Z1 ! i"] point [OF i]
    by (metis fst_conv snd_conv)
  then show ?thesis
    by (simp add: f e1 e2 e3 lenZ)
qed


lemma csqrt_real_square:
  assumes "0 \<le> r"
  shows "csqrt (of_real r * of_real r) = of_real r"
  by (rule csqrt_unique) (use assms in \<open>auto simp add: power2_eq_square\<close>)

theorem extract_pad_of_tee_network_witness:
  "tee_network [1] (map Some [5]) (map Some [2]) (map Some [5]) 50 =
     Inr \<lparr> net_f = [1],
           net_s = [[[Some (- (491 / 649)), Some (40 / 649)], [Some (40 / 649), Some (- (491 / 649))]]],
           net_z0 = 50 \<rparr> \<and>
   extract_pad \<lparr> net_f = [1],
           net_s = [[[Some (- (491 / 649)), Some (40 / 649)], [Some (40 / 649), Some (- (491 / 649))]]],
           net_z0 = 50 \<rparr> = Inr ([1], [Some 10], [Some (- 1)], [Some (5 / 4)]) \<and>
   \<not> ([Some 10] ! 0 = Some ([5] ! 0) \<and> [Some (- 1)] ! 0 = Some ([2::complex] ! 0))"
proof -
  let ?N = "\<lparr> net_f = [1],
           net_s = [[[Some (- (491 / 649)), Some (40 / 649)], [Some (40 / 649), Some (- (491 / 649))]]],
           net_z0 = 50 \<rparr>"
  have b: "tee_network [1] (map Some [5]) (map Some [2]) (map Some [5]) 50 = Inr ?N"
    by (simp add: tee_network_def tee_z_def np_add_def np_column_def network_from_z_def
        z2s_point_def Let_def)
  have z: "network_z ?N = Inr [[[Some 7, Some 2], [Some 2, Some 7]]]"
    by (simp add: network_z_def s2z_point_def Let_def)
  have den: "pad_den 7 2 \<noteq> 0"
    by (simp add: pad_den_def)
  have k: "pad_k 7 2 = 1 / 8"
    by (simp add: pad_k_def pad_den_def)
  have pb: "pad_b 7 2 = - (29 / 2)"
    by (simp add: pad_b_def k)
  have d: "pad_disc 7 2 = of_real (11 / 2) * of_real (11 / 2)"
    by (simp add: pad_disc_def pb pad_c_def)
  have s: "csqrt (pad_disc 7 2) = of_real (11 / 2)"
    unfolding d by (rule csqrt_real_square) simp
  have x1: "pad_x1 7 2 = 10"
    by (simp add: pad_x1_def s pb)
  have Z1: "pad_Z1 7 2 = 10"
    by (simp add: pad_Z1_def x1)
  have e: "extract_pad ?N = Inr ([1], [Some 10], [Some (- 1)], [Some (5 / 4)])"
    by (simp add: extract_pad_Inr [OF z] extract_point_finite [OF den] Z1 k)
  show ?thesis
    using extract_pad_of_tee_network [OF _ _ _ b e] b e by simp
qed

section \<open>The command line and the de-embedding step\<close>

text \<open>
  Claim C8.  \<open>run_pad_extraction\<close> passes four positional arguments to \<open>get_pads\<close>, which is
  declared with two: every call raises \<open>TypeError\<close>, so no pair is returned and the
  \<open>__main__\<close> block prints nothing.
\<close>

theorem run_pad_extraction_raises:
  "run_pad_extraction e file1 file2 year len = Inl TypeError \<and>
   main_block e file1 file2 year len = Inl TypeError"
  by (simp add: run_pad_extraction_def main_block_def)

text \<open>
  Claim C6 says that the composite is the left-associated cascade.  For the short measurement
  \<open>S = [[1, 1], [1, 1]]\<close> and the long measurement \<open>S = [[-1, 1], [1, 0]]\<close> the
  left-associated cascade is \<open>[[0, -1], [-1, -1]]\<close>, while the program's expression fails in
  its first cascade.
\<close>

theorem deembed_left_associated_counterexample:
  "spec_composite
     \<lparr> net_f = [1], net_s = [[[Some 1, Some 1], [Some 1, Some 1]]], net_z0 = 50 \<rparr>
     \<lparr> net_f = [1], net_s = [[[Some (- 1), Some 1], [Some 1, Some 0]]], net_z0 = 50 \<rparr>
     = Inr \<lparr> net_f = [1], net_s = [[[Some 0, Some (- 1)], [Some (- 1), Some (- 1)]]], net_z0 = 50 \<rparr> \<and>
   deembed
     \<lparr> net_f = [1], net_s = [[[Some 1, Some 1], [Some 1, Some 1]]], net_z0 = 50 \<rparr>
     \<lparr> net_f = [1], net_s = [[[Some (- 1), Some 1], [Some 1, Some 0]]], net_z0 = 50 \<rparr>
     = Inl (SingularMatrixError 0)"
  by (simp add: spec_composite_def deembed_def network_inv_def inv_point_def cascade_def
      cascade_point_def Let_def)


lemma finite_two_port_Some: "finite_two_port [[Some a, Some b], [Some c, Some d]]"
  using finite_two_port_iff by blast

lemma cascade_point_fin:
  assumes "1 - a22 * b11 \<noteq> 0"
  shows "cascade_point (i, [[Some a11, Some a12], [Some a21, Some a22]],
                           [[Some b11, Some b12], [Some b21, Some b22]]) =
     Inr [[Some (a11 + a12 * b11 * a21 / (1 - a22 * b11)), Some (a12 * b12 / (1 - a22 * b11))],
          [Some (a21 * b21 / (1 - a22 * b11)), Some (b22 + b21 * a22 * b12 / (1 - a22 * b11))]]"
  using assms by (simp add: cascade_point_def Let_def)

lemma cascade_point_singular:
  assumes "1 - a22 * b11 = 0"
  shows "cascade_point (i, [[Some a11, Some a12], [Some a21, Some a22]],
                           [[Some b11, Some b12], [Some b21, Some b22]]) =
     Inl (SingularMatrixError i)"
  using assms by (simp add: cascade_point_def Let_def)

lemma cascade_assoc_algebra:
  fixes a11 a12 a21 a22 b11 b12 b21 b22 c11 c12 c21 c22 :: complex
  defines "d1 \<equiv> 1 - a22 * b11"
    and "e1 \<equiv> 1 - b22 * c11"
  defines "p11 \<equiv> a11 + a12 * b11 * a21 / d1" and "p12 \<equiv> a12 * b12 / d1"
    and "p21 \<equiv> a21 * b21 / d1" and "p22 \<equiv> b22 + b21 * a22 * b12 / d1"
    and "q11 \<equiv> b11 + b12 * c11 * b21 / e1" and "q12 \<equiv> b12 * c12 / e1"
    and "q21 \<equiv> b21 * c21 / e1" and "q22 \<equiv> c22 + c21 * b22 * c12 / e1"
  assumes d1: "d1 \<noteq> 0" and e1: "e1 \<noteq> 0"
    and d2: "1 - p22 * c11 \<noteq> 0" and e2: "1 - a22 * q11 \<noteq> 0"
  shows "p11 + p12 * c11 * p21 / (1 - p22 * c11) = a11 + a12 * q11 * a21 / (1 - a22 * q11)"
    and "p12 * c12 / (1 - p22 * c11) = a12 * q12 / (1 - a22 * q11)"
    and "p21 * c21 / (1 - p22 * c11) = a21 * q21 / (1 - a22 * q11)"
    and "c22 + c21 * p22 * c12 / (1 - p22 * c11) = q22 + q21 * a22 * q12 / (1 - a22 * q11)"
proof -
  define D where "D = d1 * e1 - a22 * b12 * c11 * b21"
  have D2: "1 - p22 * c11 = D / d1"
    using d1 by (simp add: p22_def D_def e1_def field_simps)
  have E2: "1 - a22 * q11 = D / e1"
    using e1 by (simp add: q11_def D_def d1_def field_simps)
  have Dn: "D \<noteq> 0"
    using d2 d1 unfolding D2 by simp
  have key1: "b11 * D + b12 * b21 * c11 = d1 * (b11 * e1 + b12 * c11 * b21)"
    by (simp add: D_def d1_def algebra_simps)
  have key2: "b22 * D + a22 * b12 * b21 = e1 * (b22 * d1 + b21 * a22 * b12)"
    by (simp add: D_def e1_def algebra_simps)
  have f1: "b11 / d1 + b12 * c11 * b21 / (d1 * D) = (b11 * e1 + b12 * c11 * b21) / D"
  proof -
    have "b11 / d1 + b12 * c11 * b21 / (d1 * D) = (b11 * D + b12 * b21 * c11) / (d1 * D)"
      using d1 Dn by (simp add: field_simps)
    also have "\<dots> = (b11 * e1 + b12 * c11 * b21) / D"
      unfolding key1 using d1 Dn by simp
    finally show ?thesis .
  qed
  have f2: "b22 / e1 + b21 * a22 * b12 / (e1 * D) = (b22 * d1 + b21 * a22 * b12) / D"
  proof -
    have "b22 / e1 + b21 * a22 * b12 / (e1 * D) = (b22 * D + a22 * b12 * b21) / (e1 * D)"
      using e1 Dn by (simp add: field_simps)
    also have "\<dots> = (b22 * d1 + b21 * a22 * b12) / D"
      unfolding key2 using e1 Dn by simp
    finally show ?thesis .
  qed
  have l11: "p11 + p12 * c11 * p21 / (D / d1)
      = a11 + a12 * a21 * (b11 / d1 + b12 * c11 * b21 / (d1 * D))"
    using d1 Dn by (simp add: p11_def p12_def p21_def field_simps)
  have r11: "a11 + a12 * q11 * a21 / (D / e1)
      = a11 + a12 * a21 * ((b11 * e1 + b12 * c11 * b21) / D)"
    using e1 Dn by (simp add: q11_def field_simps)
  show "p11 + p12 * c11 * p21 / (1 - p22 * c11) = a11 + a12 * q11 * a21 / (1 - a22 * q11)"
    unfolding D2 E2 l11 r11 f1 ..
  show "p12 * c12 / (1 - p22 * c11) = a12 * q12 / (1 - a22 * q11)"
    unfolding D2 E2 using d1 e1 Dn by (simp add: p12_def q12_def)
  show "p21 * c21 / (1 - p22 * c11) = a21 * q21 / (1 - a22 * q11)"
    unfolding D2 E2 using d1 e1 Dn by (simp add: p21_def q21_def)
  have l22: "c22 + c21 * p22 * c12 / (D / d1)
      = c22 + c21 * c12 * ((b22 * d1 + b21 * a22 * b12) / D)"
    using d1 Dn by (simp add: p22_def field_simps)
  have r22: "q22 + q21 * a22 * q12 / (D / e1)
      = c22 + c21 * c12 * (b22 / e1 + b21 * a22 * b12 / (e1 * D))"
    using e1 Dn by (simp add: q22_def q21_def q12_def field_simps)
  show "c22 + c21 * p22 * c12 / (1 - p22 * c11) = q22 + q21 * a22 * q12 / (1 - a22 * q11)"
    unfolding D2 E2 l22 r22 f2 ..
qed


lemma cascade_point_finite_cases:
  assumes P: "cascade_point (i, [[Some a11, Some a12], [Some a21, Some a22]],
                               [[Some b11, Some b12], [Some b21, Some b22]]) = Inr P"
  shows "1 - a22 * b11 \<noteq> 0 \<and>
    P = [[Some (a11 + a12 * b11 * a21 / (1 - a22 * b11)), Some (a12 * b12 / (1 - a22 * b11))],
         [Some (a21 * b21 / (1 - a22 * b11)), Some (b22 + b21 * a22 * b12 / (1 - a22 * b11))]]"
proof (cases "1 - a22 * b11 = 0")
  case True
  from cascade_point_singular [OF True] P show ?thesis by simp
next
  case False
  from cascade_point_fin [OF False] P show ?thesis using False by simp
qed

lemma cascade_point_finite:
  assumes "finite_two_port A" and "finite_two_port B" and "cascade_point (i, A, B) = Inr P"
  shows "finite_two_port P"
proof -
  obtain a11 a12 a21 a22 where A: "A = [[Some a11, Some a12], [Some a21, Some a22]]"
    using assms(1) finite_two_port_iff by blast
  obtain b11 b12 b21 b22 where B: "B = [[Some b11, Some b12], [Some b21, Some b22]]"
    using assms(2) finite_two_port_iff by blast
  show ?thesis
    using cascade_point_finite_cases [OF assms(3) [unfolded A B]] finite_two_port_iff by blast
qed

lemma cascade_point_assoc:
  assumes fA: "finite_two_port A" and fB: "finite_two_port B" and fC: "finite_two_port C"
    and P: "cascade_point (i, A, B) = Inr P" and L: "cascade_point (i, P, C) = Inr L"
    and Q: "cascade_point (i, B, C) = Inr Q" and R: "cascade_point (i, A, Q) = Inr R"
  shows "L = R"
proof -
  obtain a11 a12 a21 a22 where A: "A = [[Some a11, Some a12], [Some a21, Some a22]]"
    using fA finite_two_port_iff by blast
  obtain b11 b12 b21 b22 where B: "B = [[Some b11, Some b12], [Some b21, Some b22]]"
    using fB finite_two_port_iff by blast
  obtain c11 c12 c21 c22 where C: "C = [[Some c11, Some c12], [Some c21, Some c22]]"
    using fC finite_two_port_iff by blast
  note p = cascade_point_finite_cases [OF P [unfolded A B]]
  note q = cascade_point_finite_cases [OF Q [unfolded B C]]
  from p have d1: "1 - a22 * b11 \<noteq> 0" by blast
  from q have e1: "1 - b22 * c11 \<noteq> 0" by blast
  note l = cascade_point_finite_cases [OF L [unfolded conjunct2 [OF p] C]]
  note r = cascade_point_finite_cases [OF R [unfolded conjunct2 [OF q] A]]
  from l have d2: "1 - (b22 + b21 * a22 * b12 / (1 - a22 * b11)) * c11 \<noteq> 0" by blast
  from r have e2: "1 - a22 * (b11 + b12 * c11 * b21 / (1 - b22 * c11)) \<noteq> 0" by blast
  show ?thesis
    unfolding conjunct2 [OF l] conjunct2 [OF r]
    using cascade_assoc_algebra [OF d1 e1 d2 e2] by simp
qed


lemma cascade_Inr:
  assumes "cascade A B = Inr N"
  shows "net_f N = net_f A" and "net_z0 N = net_z0 A"
    and "length (net_s B) = length (net_s A)" and "length (net_s N) = length (net_s A)"
    and "\<And>i. i < length (net_s A) \<Longrightarrow>
           cascade_point (i, net_s A ! i, net_s B ! i) = Inr (net_s N ! i)"
proof -
  have len: "length (net_s A) = length (net_s B)"
    using assms by (auto simp add: cascade_def split: if_splits)
  obtain sm where sm: "mapE cascade_point (enumerate 0 (zip (net_s A) (net_s B))) = Inr sm"
    and N: "N = \<lparr> net_f = net_f A, net_s = sm, net_z0 = net_z0 A \<rparr>"
    using assms by (auto simp add: cascade_def bindE_eq_Inr split: if_splits)
  have all2: "list_all2 (\<lambda>p S. cascade_point p = Inr S) (enumerate 0 (zip (net_s A) (net_s B))) sm"
    using sm by (simp add: mapE_Inr_iff)
  then have lsm: "length sm = length (net_s A)"
    using len by (auto dest: list_all2_lengthD)
  show "net_f N = net_f A" "net_z0 N = net_z0 A" by (simp_all add: N)
  show "length (net_s B) = length (net_s A)" using len by simp
  show "length (net_s N) = length (net_s A)" by (simp add: N lsm)
  fix i assume i: "i < length (net_s A)"
  show "cascade_point (i, net_s A ! i, net_s B ! i) = Inr (net_s N ! i)"
    using list_all2_nthD [OF all2, of i] i len by (simp add: nth_enumerate_eq N)
qed

lemma cascade_finite:
  assumes "cascade A B = Inr N" and "list_all finite_two_port (net_s A)"
    and "list_all finite_two_port (net_s B)"
  shows "list_all finite_two_port (net_s N)"
  unfolding list_all_length
proof (intro allI impI)
  fix i assume "i < length (net_s N)"
  then have i: "i < length (net_s A)" and i': "i < length (net_s B)"
    using cascade_Inr(3,4) [OF assms(1)] by simp_all
  show "finite_two_port (net_s N ! i)"
    using cascade_point_finite [OF _ _ cascade_Inr(5) [OF assms(1) i]] assms(2,3) i i'
    by (simp add: list_all_length)
qed

lemma cascade_assoc:
  assumes fA: "list_all finite_two_port (net_s A)" and fB: "list_all finite_two_port (net_s B)"
    and fC: "list_all finite_two_port (net_s C)"
    and P: "cascade A B = Inr P" and L: "cascade P C = Inr L"
    and Q: "cascade B C = Inr Q" and R: "cascade A Q = Inr R"
  shows "L = R"
proof -
  have lens: "length (net_s P) = length (net_s A)" "length (net_s L) = length (net_s A)"
    "length (net_s R) = length (net_s A)" "length (net_s B) = length (net_s A)"
    "length (net_s C) = length (net_s A)" "length (net_s Q) = length (net_s A)"
    using cascade_Inr(3,4) [OF P] cascade_Inr(3,4) [OF L] cascade_Inr(3,4) [OF Q]
      cascade_Inr(3,4) [OF R] by simp_all
  have "net_s L = net_s R"
  proof (rule nth_equalityI)
    show "length (net_s L) = length (net_s R)" by (simp add: lens)
    fix i assume "i < length (net_s L)"
    then have i: "i < length (net_s A)" by (simp add: lens)
    have pA: "cascade_point (i, net_s A ! i, net_s B ! i) = Inr (net_s P ! i)"
      using cascade_Inr(5) [OF P i] .
    have pL: "cascade_point (i, net_s P ! i, net_s C ! i) = Inr (net_s L ! i)"
      using cascade_Inr(5) [OF L] i by (simp add: lens)
    have pQ: "cascade_point (i, net_s B ! i, net_s C ! i) = Inr (net_s Q ! i)"
      using cascade_Inr(5) [OF Q] i by (simp add: lens)
    have pR: "cascade_point (i, net_s A ! i, net_s Q ! i) = Inr (net_s R ! i)"
      using cascade_Inr(5) [OF R i] .
    have f: "finite_two_port (net_s A ! i)" "finite_two_port (net_s B ! i)"
      "finite_two_port (net_s C ! i)"
      using fA fB fC i by (simp_all add: list_all_length lens)
    show "net_s L ! i = net_s R ! i"
      by (rule cascade_point_assoc [OF f pA pL pQ pR])
  qed
  moreover have "net_f L = net_f R" "net_z0 L = net_z0 R"
    using cascade_Inr(1,2) [OF P] cascade_Inr(1,2) [OF L] cascade_Inr(1,2) [OF R] by simp_all
  ultimately show ?thesis by simp
qed

lemma inv_point_finite:
  assumes "finite_two_port m" and "inv_point (i, m) = Inr S"
  shows "finite_two_port S"
proof -
  obtain a b c d where m: "m = [[Some a, Some b], [Some c, Some d]]"
    using assms(1) finite_two_port_iff by blast
  show ?thesis
    using assms(2) unfolding m
    by (auto simp add: inv_point_def Let_def finite_two_port_def split: if_splits)
qed

lemma network_inv_finite:
  assumes "network_inv N = Inr M" and "list_all finite_two_port (net_s N)"
  shows "list_all finite_two_port (net_s M)"
proof -
  obtain sm where sm: "mapE inv_point (enumerate 0 (net_s N)) = Inr sm"
    and M: "net_s M = sm"
    using assms(1) by (auto simp add: network_inv_def bindE_eq_Inr)
  have all2: "list_all2 (\<lambda>p S. inv_point p = Inr S) (enumerate 0 (net_s N)) sm"
    using sm by (simp add: mapE_Inr_iff)
  then have len: "length sm = length (net_s N)"
    by (auto dest: list_all2_lengthD)
  show ?thesis
    unfolding list_all_length M
  proof (intro allI impI)
    fix i assume "i < length sm"
    then have i: "i < length (net_s N)" by (simp add: len)
    have "inv_point (i, net_s N ! i) = Inr (sm ! i)"
      using list_all2_nthD [OF all2, of i] i by (simp add: nth_enumerate_eq)
    then show "finite_two_port (sm ! i)"
      using inv_point_finite assms(2) i by (simp add: list_all_length) blast
  qed
qed

text \<open>
  Claim C6, amended.  The composite is the right-associated cascade
  \<open>cascade(networkShort, cascade(invertMatrix(networkLong), networkShort))\<close>, as Python groups
  \<open>**\<close>; for measurements with finite entries it is the left-associated cascade of the
  specification whenever both are defined.
\<close>

theorem deembed_right_associated:
  assumes fS: "list_all finite_two_port (net_s L_line)"
    and fL: "list_all finite_two_port (net_s L2_line)"
  shows "deembed L_line L2_line =
      bindE (network_inv L2_line) (\<lambda>L2_inv.
        bindE (cascade L2_inv L_line) (\<lambda>inner. cascade L_line inner)) \<and>
    (\<forall>P Q. deembed L_line L2_line = Inr P \<and> spec_composite L_line L2_line = Inr Q \<longrightarrow> P = Q)"
proof (intro conjI allI impI)
  show "deembed L_line L2_line =
      bindE (network_inv L2_line) (\<lambda>L2_inv.
        bindE (cascade L2_inv L_line) (\<lambda>inner. cascade L_line inner))"
    by (simp add: deembed_def)
next
  fix P Q
  assume h: "deembed L_line L2_line = Inr P \<and> spec_composite L_line L2_line = Inr Q"
  then obtain Li inner where Li: "network_inv L2_line = Inr Li"
    and inner: "cascade Li L_line = Inr inner" and P: "cascade L_line inner = Inr P"
    by (auto simp add: deembed_def bindE_eq_Inr)
  from h Li obtain first where first: "cascade L_line Li = Inr first"
    and Q: "cascade first L_line = Inr Q"
    by (auto simp add: spec_composite_def bindE_eq_Inr)
  have fLi: "list_all finite_two_port (net_s Li)"
    by (rule network_inv_finite [OF Li fL])
  show "P = Q"
    using cascade_assoc [OF fS fLi fS first Q inner P] by simp
qed

theorem deembed_right_associated_witness:
  "list_all finite_two_port (net_s
     \<lparr> net_f = [1], net_s = [[[Some (1 / 21), Some (8 / 21)], [Some (8 / 21), Some (1 / 21)]]],
       net_z0 = 50 \<rparr>) \<and>
   list_all finite_two_port (net_s
     \<lparr> net_f = [1], net_s = [[[Some 0, Some 1], [Some 1, Some 0]]], net_z0 = 50 \<rparr>) \<and>
   deembed
     \<lparr> net_f = [1], net_s = [[[Some (1 / 21), Some (8 / 21)], [Some (8 / 21), Some (1 / 21)]]],
       net_z0 = 50 \<rparr>
     \<lparr> net_f = [1], net_s = [[[Some 0, Some 1], [Some 1, Some 0]]], net_z0 = 50 \<rparr> =
   Inr \<lparr> net_f = [1], net_s = [[[Some (3 / 55), Some (8 / 55)], [Some (8 / 55), Some (3 / 55)]]],
       net_z0 = 50 \<rparr> \<and>
   spec_composite
     \<lparr> net_f = [1], net_s = [[[Some (1 / 21), Some (8 / 21)], [Some (8 / 21), Some (1 / 21)]]],
       net_z0 = 50 \<rparr>
     \<lparr> net_f = [1], net_s = [[[Some 0, Some 1], [Some 1, Some 0]]], net_z0 = 50 \<rparr> =
   Inr \<lparr> net_f = [1], net_s = [[[Some (3 / 55), Some (8 / 55)], [Some (8 / 55), Some (3 / 55)]]],
       net_z0 = 50 \<rparr>"
proof -
  let ?S = "\<lparr> net_f = [1], net_s = [[[Some (1 / 21), Some (8 / 21)], [Some (8 / 21), Some (1 / 21)]]],
       net_z0 = 50 \<rparr>"
  let ?L = "\<lparr> net_f = [1], net_s = [[[Some 0, Some 1], [Some 1, Some 0]]], net_z0 = 50 \<rparr>"
  let ?C = "\<lparr> net_f = [1], net_s = [[[Some (3 / 55), Some (8 / 55)], [Some (8 / 55), Some (3 / 55)]]],
       net_z0 = 50 \<rparr>"
  have f1: "list_all finite_two_port (net_s ?S)"
    by (simp add: finite_two_port_Some)
  have f2: "list_all finite_two_port (net_s ?L)"
    by (simp add: finite_two_port_Some)
  have d: "deembed ?S ?L = Inr ?C"
    by (simp add: deembed_def network_inv_def inv_point_def cascade_def cascade_point_def Let_def)
  have s: "spec_composite ?S ?L = Inr ?C"
    by (simp add: spec_composite_def network_inv_def inv_point_def cascade_def
        cascade_point_def Let_def)
  show ?thesis
    using deembed_right_associated [OF f1 f2] f1 f2 d s by blast
qed

section \<open>get_pads and its files\<close>

lemma str_int_2015: "str_int 2015 = ''2015''"
  by (simp add: str_int_def str_nat.simps digit_char_def)

lemma str_int_600: "str_int 600 = ''600''"
  by (simp add: str_int_def str_nat.simps digit_char_def)

lemma example_composite:
  "deembed
     \<lparr> net_f = [1], net_s = [[[Some (1 / 21), Some (8 / 21)], [Some (8 / 21), Some (1 / 21)]]],
       net_z0 = 50 \<rparr>
     \<lparr> net_f = [1], net_s = [[[Some 0, Some 1], [Some 1, Some 0]]], net_z0 = 50 \<rparr> =
   Inr \<lparr> net_f = [1], net_s = [[[Some (3 / 55), Some (8 / 55)], [Some (8 / 55), Some (3 / 55)]]],
       net_z0 = 50 \<rparr>"
  by (simp add: deembed_def network_inv_def inv_point_def cascade_def cascade_point_def Let_def)

lemma example_symmetrized:
  "enforce_reciprocal_symmetric
     \<lparr> net_f = [1], net_s = [[[Some (3 / 55), Some (8 / 55)], [Some (8 / 55), Some (3 / 55)]]],
       net_z0 = 50 \<rparr> =
     \<lparr> net_f = [1], net_s = [[[Some (3 / 55), Some (8 / 55)], [Some (8 / 55), Some (3 / 55)]]],
       net_z0 = 50 \<rparr>"
  by (simp add: enforce_reciprocal_symmetric_def average_diagonal_def fill_diagonal_def
      reciprocal_part_def np_mean_def np_diag_def upt_rec)

lemma example_extracted:
  "extract_pad
     \<lparr> net_f = [1], net_s = [[[Some (3 / 55), Some (8 / 55)], [Some (8 / 55), Some (3 / 55)]]],
       net_z0 = 50 \<rparr> =
   Inr ([1], [Some (250 / 3)], [Some (- (25 / 3))], [Some (125 / 12)])"
proof -
  let ?C = "\<lparr> net_f = [1], net_s = [[[Some (3 / 55), Some (8 / 55)], [Some (8 / 55), Some (3 / 55)]]],
       net_z0 = 50 \<rparr>"
  have z: "network_z ?C = Inr [[[Some (175 / 3), Some (50 / 3)], [Some (50 / 3), Some (175 / 3)]]]"
    by (simp add: network_z_def s2z_point_def Let_def)
  have den: "pad_den (175 / 3) (50 / 3) \<noteq> 0"
    by (simp add: pad_den_def)
  have k: "pad_k (175 / 3) (50 / 3) = 1 / 8"
    by (simp add: pad_k_def pad_den_def)
  have pb: "pad_b (175 / 3) (50 / 3) = - (725 / 6)"
    by (simp add: pad_b_def k)
  have d: "pad_disc (175 / 3) (50 / 3) = of_real (275 / 6) * of_real (275 / 6)"
    by (simp add: pad_disc_def pb pad_c_def)
  have s: "csqrt (pad_disc (175 / 3) (50 / 3)) = of_real (275 / 6)"
    unfolding d by (rule csqrt_real_square) simp
  have x1: "pad_x1 (175 / 3) (50 / 3) = 250 / 3"
    by (simp add: pad_x1_def s pb)
  have Z1: "pad_Z1 (175 / 3) (50 / 3) = 250 / 3"
    by (simp add: pad_Z1_def x1)
  show ?thesis
    by (simp add: extract_pad_Inr [OF z] extract_point_finite [OF den] Z1 k)
qed

lemma example_left:
  "tee_network [1] [Some (250 / 3)] [Some (- (25 / 3))] [Some (125 / 12)] 50 =
   Inr \<lparr> net_f = [1],
       net_s = [[[Some (71 / 371), Some (- (48 / 371))], [Some (- (48 / 371)), Some (- (349 / 371))]]],
       net_z0 = 50 \<rparr>"
  by (simp add: tee_network_def tee_z_def np_add_def np_column_def network_from_z_def
      z2s_point_def Let_def)

lemma example_right:
  "tee_network [1] [Some (125 / 12)] [Some (- (25 / 3))] [Some (250 / 3)] 50 =
   Inr \<lparr> net_f = [1],
       net_s = [[[Some (- (349 / 371)), Some (- (48 / 371))], [Some (- (48 / 371)), Some (71 / 371)]]],
       net_z0 = 50 \<rparr>"
  by (simp add: tee_network_def tee_z_def np_add_def np_column_def network_from_z_def
      z2s_point_def Let_def)

lemma example_get_pads:
  "get_pads
     \<lparr> env_files = [''2015_600.s2p'' \<mapsto> \<lparr> net_f = [1], net_s = [[[Some (1 / 21), Some (8 / 21)], [Some (8 / 21), Some (1 / 21)]]],
       net_z0 = 50 \<rparr>,
                    ''2015_1200.s2p'' \<mapsto> \<lparr> net_f = [1], net_s = [[[Some 0, Some 1], [Some 1, Some 0]]], net_z0 = 50 \<rparr>],
       env_year = 2015, env_length = 600, env_written = [] \<rparr>
     ''2015_600.s2p'' ''2015_1200.s2p'' =
   Inr ((\<lparr> net_f = [1],
       net_s = [[[Some (71 / 371), Some (- (48 / 371))], [Some (- (48 / 371)), Some (- (349 / 371))]]],
       net_z0 = 50 \<rparr>,
         \<lparr> net_f = [1],
       net_s = [[[Some (- (349 / 371)), Some (- (48 / 371))], [Some (- (48 / 371)), Some (71 / 371)]]],
       net_z0 = 50 \<rparr>),
        \<lparr> env_files = [''2015_600.s2p'' \<mapsto> \<lparr> net_f = [1], net_s = [[[Some (1 / 21), Some (8 / 21)], [Some (8 / 21), Some (1 / 21)]]],
       net_z0 = 50 \<rparr>,
                    ''2015_1200.s2p'' \<mapsto> \<lparr> net_f = [1], net_s = [[[Some 0, Some 1], [Some 1, Some 0]]], net_z0 = 50 \<rparr>],
       env_year = 2015, env_length = 600, env_written = [] \<rparr>
          \<lparr> env_written :=
              [(''left_pad_2015_600'',
                \<lparr> net_f = [1],
       net_s = [[[Some (71 / 371), Some (- (48 / 371))], [Some (- (48 / 371)), Some (- (349 / 371))]]],
       net_z0 = 50 \<rparr>),
               (''right_pad_2015_600'',
                \<lparr> net_f = [1],
       net_s = [[[Some (- (349 / 371)), Some (- (48 / 371))], [Some (- (48 / 371)), Some (71 / 371)]]],
       net_z0 = 50 \<rparr>)] \<rparr>)"
  by (simp add: get_pads_def load_network_def example_composite example_symmetrized
      example_extracted example_left example_right write_touchstone_def pad_name_def
      str_int_2015 str_int_600)

text \<open>
  Claim C9 says that producing the two pads writes no files.  With a short measurement
  \<open>2015_600.s2p\<close> (the symmetric pad with \<open>S11 = 1/21\<close>, \<open>S21 = 8/21\<close>) and a long
  measurement \<open>2015_1200.s2p\<close> (an ideal through), \<open>get_pads\<close> returns the two pads and has
  written them as \<open>left_pad_2015_600\<close> and \<open>right_pad_2015_600\<close>.
\<close>

theorem get_pads_writes_counterexample:
  "get_pads
     \<lparr> env_files = [''2015_600.s2p'' \<mapsto> \<lparr> net_f = [1], net_s = [[[Some (1 / 21), Some (8 / 21)], [Some (8 / 21), Some (1 / 21)]]],
       net_z0 = 50 \<rparr>,
                    ''2015_1200.s2p'' \<mapsto> \<lparr> net_f = [1], net_s = [[[Some 0, Some 1], [Some 1, Some 0]]], net_z0 = 50 \<rparr>],
       env_year = 2015, env_length = 600, env_written = [] \<rparr>
     ''2015_600.s2p'' ''2015_1200.s2p'' =
   Inr ((\<lparr> net_f = [1],
       net_s = [[[Some (71 / 371), Some (- (48 / 371))], [Some (- (48 / 371)), Some (- (349 / 371))]]],
       net_z0 = 50 \<rparr>,
         \<lparr> net_f = [1],
       net_s = [[[Some (- (349 / 371)), Some (- (48 / 371))], [Some (- (48 / 371)), Some (71 / 371)]]],
       net_z0 = 50 \<rparr>),
        \<lparr> env_files = [''2015_600.s2p'' \<mapsto> \<lparr> net_f = [1], net_s = [[[Some (1 / 21), Some (8 / 21)], [Some (8 / 21), Some (1 / 21)]]],
       net_z0 = 50 \<rparr>,
                    ''2015_1200.s2p'' \<mapsto> \<lparr> net_f = [1], net_s = [[[Some 0, Some 1], [Some 1, Some 0]]], net_z0 = 50 \<rparr>],
       env_year = 2015, env_length = 600, env_written = [] \<rparr>
          \<lparr> env_written :=
              [(''left_pad_2015_600'',
                \<lparr> net_f = [1],
       net_s = [[[Some (71 / 371), Some (- (48 / 371))], [Some (- (48 / 371)), Some (- (349 / 371))]]],
       net_z0 = 50 \<rparr>),
               (''right_pad_2015_600'',
                \<lparr> net_f = [1],
       net_s = [[[Some (- (349 / 371)), Some (- (48 / 371))], [Some (- (48 / 371)), Some (71 / 371)]]],
       net_z0 = 50 \<rparr>)] \<rparr>)"
  by (rule example_get_pads)

text \<open>
  Claim C9, amended.  \<open>get_pads\<close> does the file output itself: when it returns
  \<open>(left_pad, right_pad)\<close> it has written the left pad and then the right pad with
  \<open>write_touchstone\<close>, under the names \<open>left_pad_<year>_<length>\<close> and
  \<open>right_pad_<year>_<length>\<close> built from the module globals \<open>year\<close> and \<open>length\<close>; the
  input files and the globals are unchanged.
\<close>

theorem get_pads_writes_touchstone:
  assumes "get_pads e file1 file2 = Inr ((left_pad, right_pad), e')"
  shows "env_written e' = env_written e @
      [(''left_pad_'' @ str_int (env_year e) @ ''_'' @ str_int (env_length e), left_pad),
       (''right_pad_'' @ str_int (env_year e) @ ''_'' @ str_int (env_length e), right_pad)] \<and>
    env_files e' = env_files e \<and> env_year e' = env_year e \<and> env_length e' = env_length e"
  using assms
  by (auto simp add: get_pads_def bindE_eq_Inr write_touchstone_def pad_name_def Let_def
      split: prod.splits)

theorem get_pads_writes_touchstone_witness:
  "get_pads
     \<lparr> env_files = [''2015_600.s2p'' \<mapsto> \<lparr> net_f = [1], net_s = [[[Some (1 / 21), Some (8 / 21)], [Some (8 / 21), Some (1 / 21)]]],
       net_z0 = 50 \<rparr>,
                    ''2015_1200.s2p'' \<mapsto> \<lparr> net_f = [1], net_s = [[[Some 0, Some 1], [Some 1, Some 0]]], net_z0 = 50 \<rparr>],
       env_year = 2015, env_length = 600, env_written = [] \<rparr>
     ''2015_600.s2p'' ''2015_1200.s2p'' =
   Inr ((\<lparr> net_f = [1],
       net_s = [[[Some (71 / 371), Some (- (48 / 371))], [Some (- (48 / 371)), Some (- (349 / 371))]]],
       net_z0 = 50 \<rparr>,
         \<lparr> net_f = [1],
       net_s = [[[Some (- (349 / 371)), Some (- (48 / 371))], [Some (- (48 / 371)), Some (71 / 371)]]],
       net_z0 = 50 \<rparr>),
        \<lparr> env_files = [''2015_600.s2p'' \<mapsto> \<lparr> net_f = [1], net_s = [[[Some (1 / 21), Some (8 / 21)], [Some (8 / 21), Some (1 / 21)]]],
       net_z0 = 50 \<rparr>,
                    ''2015_1200.s2p'' \<mapsto> \<lparr> net_f = [1], net_s = [[[Some 0, Some 1], [Some 1, Some 0]]], net_z0 = 50 \<rparr>],
       env_year = 2015, env_length = 600, env_written = [] \<rparr>
          \<lparr> env_written :=
              [(''left_pad_2015_600'',
                \<lparr> net_f = [1],
       net_s = [[[Some (71 / 371), Some (- (48 / 371))], [Some (- (48 / 371)), Some (- (349 / 371))]]],
       net_z0 = 50 \<rparr>),
               (''right_pad_2015_600'',
                \<lparr> net_f = [1],
       net_s = [[[Some (- (349 / 371)), Some (- (48 / 371))], [Some (- (48 / 371)), Some (71 / 371)]]],
       net_z0 = 50 \<rparr>)] \<rparr>) \<and>
   env_written
     (\<lparr> env_files = [''2015_600.s2p'' \<mapsto> \<lparr> net_f = [1], net_s = [[[Some (1 / 21), Some (8 / 21)], [Some (8 / 21), Some (1 / 21)]]],
       net_z0 = 50 \<rparr>,
                    ''2015_1200.s2p'' \<mapsto> \<lparr> net_f = [1], net_s = [[[Some 0, Some 1], [Some 1, Some 0]]], net_z0 = 50 \<rparr>],
       env_year = 2015, env_length = 600, env_written = [] \<rparr>
          \<lparr> env_written :=
              [(''left_pad_2015_600'',
                \<lparr> net_f = [1],
       net_s = [[[Some (71 / 371), Some (- (48 / 371))], [Some (- (48 / 371)), Some (- (349 / 371))]]],
       net_z0 = 50 \<rparr>),
               (''right_pad_2015_600'',
                \<lparr> net_f = [1],
       net_s = [[[Some (- (349 / 371)), Some (- (48 / 371))], [Some (- (48 / 371)), Some (71 / 371)]]],
       net_z0 = 50 \<rparr>)] \<rparr>) =
   env_written
     (\<lparr> env_files = [''2015_600.s2p'' \<mapsto> \<lparr> net_f = [1], net_s = [[[Some (1 / 21), Some (8 / 21)], [Some (8 / 21), Some (1 / 21)]]],
       net_z0 = 50 \<rparr>,
                    ''2015_1200.s2p'' \<mapsto> \<lparr> net_f = [1], net_s = [[[Some 0, Some 1], [Some 1, Some 0]]], net_z0 = 50 \<rparr>],
       env_year = 2015, env_length = 600, env_written = [] \<rparr>) @
   [(''left_pad_'' @ str_int 2015 @ ''_'' @ str_int 600,
     \<lparr> net_f = [1],
       net_s = [[[Some (71 / 371), Some (- (48 / 371))], [Some (- (48 / 371)), Some (- (349 / 371))]]],
       net_z0 = 50 \<rparr>),
    (''right_pad_'' @ str_int 2015 @ ''_'' @ str_int 600,
     \<lparr> net_f = [1],
       net_s = [[[Some (- (349 / 371)), Some (- (48 / 371))], [Some (- (48 / 371)), Some (71 / 371)]]],
       net_z0 = 50 \<rparr>)]"
  using get_pads_writes_touchstone [OF example_get_pads] example_get_pads by simp

end
